theory Spec2Isabelle
  imports Complex_Main "HOL-Library.Word"
begin

section \<open>AgroNova: the simulated ledger of \<^verbatim>\<open>src/App.jsx\<close>\<close>

text \<open>
  The component \<^verbatim>\<open>AgronovaPrototype\<close> keeps four pieces of state that matter here
  (\<^verbatim>\<open>products\<close>, \<^verbatim>\<open>chain\<close>, \<^verbatim>\<open>user\<close>, \<^verbatim>\<open>toast\<close>) and changes them in event
  handlers. Each handler is embedded as a function from the state before the event to the
  state after it. What JavaScript reads from outside the program is an explicit argument:
  \<^item> every reading of \<^verbatim>\<open>nowISO()\<close> and every \<^verbatim>\<open>Math.random()\<close> draw (record \<open>entropy\<close>);
  \<^item> the answer of \<^verbatim>\<open>window.confirm\<close> (a \<open>bool\<close>);
  \<^item> the built-ins \<^verbatim>\<open>JSON.stringify\<close> and \<^verbatim>\<open>Number\<close> (record \<open>builtins\<close>), whose
    definitions are not part of the repository.
  A \<^verbatim>\<open>TypeError\<close> thrown by reading a property of \<^verbatim>\<open>null\<close> or \<^verbatim>\<open>undefined\<close> is the
  left summand of the result. The \<^verbatim>\<open>view\<close> state and the timers that clear the toast
  change none of the other three pieces of state and are not modelled, except that a cleared
  toast is an event of its own.
\<close>

subsection \<open>Strings and numbers of JavaScript\<close>

text \<open>
  A JavaScript string is a sequence of 16-bit code units; \<^verbatim>\<open>charCodeAt\<close> reads one.
  String literals of the source are ASCII, written here with \<open>lit\<close>.
\<close>

type_synonym jschar = "16 word"
type_synonym jsstring = "jschar list"

definition charCode :: "char \<Rightarrow> jschar" where
  "charCode c = of_nat (of_char c)"

definition lit :: "string \<Rightarrow> jsstring" where
  "lit s = map charCode s"

text \<open>
  A JavaScript number is a double: not-a-number, an infinity, or a finite value, which is a
  rational (the two zeros are not told apart; no operation below does).
\<close>

datatype jsnumber = NaN | NegInfinity | Finite rat | PosInfinity

text \<open>The comparison \<^verbatim>\<open>x <= 0\<close> on numbers; it is false on \<^verbatim>\<open>NaN\<close>.\<close>

fun le_zero :: "jsnumber \<Rightarrow> bool" where
  "le_zero NaN = False"
| "le_zero NegInfinity = True"
| "le_zero (Finite r) = (r \<le> 0)"
| "le_zero PosInfinity = False"

subsection \<open>Utilities: \<^verbatim>\<open>pseudoHash\<close>\<close>

text \<open>
  \<^verbatim>\<open>
  function pseudoHash(input) {
    let h = 0;
    for (let i = 0; i < input.length; i++) {
      h = (h * 31 + input.charCodeAt(i)) >>> 0;
    }
    return (
      h.toString(16).padStart(8, "0") + Math.random().toString(16).slice(2, 10)
    ).toUpperCase();
  }
  \<close>
  The loop keeps \<open>h\<close> below \<open>2 ^ 32\<close>, so \<open>h * 31 + c\<close> is exact in a double and
  \<^verbatim>\<open>>>> 0\<close> is reduction modulo \<open>2 ^ 32\<close>: arithmetic on \<open>32 word\<close>.
\<close>

definition checksum :: "jsstring \<Rightarrow> 32 word" where
  "checksum input = foldl (\<lambda>h c. h * 31 + ucast c) 0 input"

text \<open>\<^verbatim>\<open>n.toString(16)\<close> on a non-negative integer: lower-case digits, no leading zero.\<close>

definition hexDigit :: "nat \<Rightarrow> jschar" where
  "hexDigit d = (if d < 10 then 48 + of_nat d else 87 + of_nat d)"

fun toString16 :: "nat \<Rightarrow> jsstring" where
  "toString16 n =
     (if n < 16 then [hexDigit n] else toString16 (n div 16) @ [hexDigit (n mod 16)])"

declare toString16.simps [simp del]

text \<open>\<^verbatim>\<open>s.padStart(n, fill)\<close>: the filler is repeated and cut to the missing length.\<close>

definition padStart :: "nat \<Rightarrow> jsstring \<Rightarrow> jsstring \<Rightarrow> jsstring" where
  "padStart n fill s =
     (if n \<le> length s \<or> fill = [] then s
      else take (n - length s) (concat (replicate (n - length s) fill)) @ s)"

text \<open>
  \<^verbatim>\<open>toUpperCase\<close> on the code units \<open>a\<close> to \<open>z\<close>. The string it is applied to in
  \<^verbatim>\<open>pseudoHash\<close> consists of hexadecimal digits, where this is all it does; other code
  units are left as they are.
\<close>

definition upperChar :: "jschar \<Rightarrow> jschar" where
  "upperChar c = (if 97 \<le> c \<and> c \<le> 122 then c - 32 else c)"

definition toUpperCase :: "jsstring \<Rightarrow> jsstring" where
  "toUpperCase s = map upperChar s"

text \<open>
  The first argument is the string \<^verbatim>\<open>Math.random().toString(16).slice(2, 10)\<close> of this
  call: at most eight hexadecimal digits.
\<close>

definition pseudoHash :: "jsstring \<Rightarrow> jsstring \<Rightarrow> jsstring" where
  "pseudoHash rnd input =
     toUpperCase (padStart 8 (lit ''0'') (toString16 (unat (checksum input))) @ rnd)"

subsection \<open>Data: actors, products, blocks\<close>

text \<open>
  Objects \<^verbatim>\<open>{id, name, village}\<close> (a farmer) and \<^verbatim>\<open>{id, name}\<close> (a broker): the
  village of a broker is \<^verbatim>\<open>undefined\<close>.
\<close>

record actor =
  actor_id :: jsstring
  actor_name :: jsstring
  village :: "jsstring option"

datatype status = LISTED | SOLD

text \<open>
  A product. \<open>broker\<close> is set by \<^verbatim>\<open>orderProduct\<close>, \<open>hashTemp\<close> (the property
  \<^verbatim>\<open>_hashTemp\<close>) by the initialiser of the chain; both are \<^verbatim>\<open>undefined\<close> before.
\<close>

record product =
  product_id :: jsstring
  product_name :: jsstring
  quantityKg :: jsnumber
  basePricePerKg :: jsnumber
  farmer :: actor
  status :: status
  broker :: "actor option"
  hashTemp :: "jsstring option"

text \<open>The object \<^verbatim>\<open>{id, name, quantityKg}\<close> inside a transfer.\<close>

record product_ref =
  ref_id :: jsstring
  ref_name :: jsstring
  ref_quantityKg :: jsnumber

text \<open>The \<^verbatim>\<open>data\<close> of a block, tagged by its \<^verbatim>\<open>type\<close>.\<close>

datatype payload =
    GENESIS jsstring
  | LISTING product actor
  | TRANSFER product_ref actor actor jsnumber

record block =
  index :: nat
  timestamp :: jsstring
  prevHash :: jsstring
  data :: payload
  hash :: jsstring

text \<open>
  The built-ins the program calls: \<^verbatim>\<open>JSON.stringify\<close> on the data of a block and
  \<^verbatim>\<open>Number\<close> on the text of a form field.
\<close>

record builtins =
  JSON_stringify :: "payload \<Rightarrow> jsstring"
  Number :: "jsstring \<Rightarrow> jsnumber"

text \<open>
  What one call of \<^verbatim>\<open>makeBlock\<close> reads from outside, in the order it reads it: the
  clock for the hash, the random draw inside \<^verbatim>\<open>pseudoHash\<close>, the clock for the
  \<^verbatim>\<open>timestamp\<close> field.
\<close>

record entropy =
  hashTime :: jsstring
  random :: jsstring
  blockTime :: jsstring

text \<open>
  \<^verbatim>\<open>
  function makeBlock(prevHash, data) {
    const body = JSON.stringify(data);
    const hash = pseudoHash(prevHash + body + nowISO());
    return { index: 0, timestamp: nowISO(), prevHash, data, hash };
  }
  \<close>
\<close>

definition makeBlock :: "builtins \<Rightarrow> entropy \<Rightarrow> jsstring \<Rightarrow> payload \<Rightarrow> block" where
  "makeBlock B e prev d =
     (let body = JSON_stringify B d;
          h = pseudoHash (random e) (prev @ body @ hashTime e)
      in \<lparr>index = 0, timestamp = blockTime e, prevHash = prev, data = d, hash = h\<rparr>)"

subsection \<open>Demo seeds\<close>

definition seedProducts :: "product list" where
  "seedProducts =
     [\<lparr>product_id = lit ''AGR-1001'', product_name = lit ''Organic Tomatoes'',
       quantityKg = Finite 120, basePricePerKg = Finite 28,
       farmer = \<lparr>actor_id = lit ''F-001'', actor_name = lit ''Ravi Kumar'',
                 village = Some (lit ''Narsinghpur'')\<rparr>,
       status = LISTED, broker = None, hashTemp = None\<rparr>,
      \<lparr>product_id = lit ''AGR-1002'', product_name = lit ''Basmati Rice'',
       quantityKg = Finite 500, basePricePerKg = Finite 62,
       farmer = \<lparr>actor_id = lit ''F-002'', actor_name = lit ''Sita Devi'',
                 village = Some (lit ''Rewa'')\<rparr>,
       status = LISTED, broker = None, hashTemp = None\<rparr>]"

datatype role = farmer_role | consumer_role | broker_role | admin_role

record user =
  user_id :: jsstring
  username :: jsstring
  password :: jsstring
  role :: role
  user_name :: jsstring
  user_village :: "jsstring option"

definition seedUsers :: "user list" where
  "seedUsers =
     [\<lparr>user_id = lit ''F-001'', username = lit ''farmer1'', password = lit ''password1'',
       role = farmer_role, user_name = lit ''Ravi Kumar'',
       user_village = Some (lit ''Narsinghpur'')\<rparr>,
      \<lparr>user_id = lit ''F-002'', username = lit ''farmer2'', password = lit ''password2'',
       role = farmer_role, user_name = lit ''Sita Devi'', user_village = Some (lit ''Rewa'')\<rparr>,
      \<lparr>user_id = lit ''C-001'', username = lit ''consumer1'', password = lit ''password1'',
       role = consumer_role, user_name = lit ''Anil Sharma'', user_village = None\<rparr>,
      \<lparr>user_id = lit ''B-001'', username = lit ''broker1'', password = lit ''password1'',
       role = broker_role, user_name = lit ''GreenSupply Pvt Ltd'', user_village = None\<rparr>,
      \<lparr>user_id = lit ''A-001'', username = lit ''admin'', password = lit ''password'',
       role = admin_role, user_name = lit ''Admin'', user_village = None\<rparr>]"

subsection \<open>The state of the component and its initial value\<close>

datatype toast_type = success | error

record toast =
  message :: jsstring
  toast_type :: toast_type

record app_state =
  products :: "product list"
  chain :: "block list"
  user :: "user option"
  toast :: "toast option"

text \<open>
  The genesis block, written out twice in the source (initial state and reset):
  \<^verbatim>\<open>
  const genesis = {
    index: 0, timestamp: nowISO(), prevHash: "0xGENESIS",
    data: { type: "GENESIS", message: "Agronova Chain Initialized" },
    hash: pseudoHash("GENESIS"),
  };
  \<close>
  The arguments are the reading of the clock and the random draw of \<^verbatim>\<open>pseudoHash\<close>.
\<close>

definition genesis :: "jsstring \<Rightarrow> jsstring \<Rightarrow> block" where
  "genesis now rnd =
     \<lparr>index = 0, timestamp = now, prevHash = lit ''0xGENESIS'',
      data = GENESIS (lit ''Agronova Chain Initialized''),
      hash = pseudoHash rnd (lit ''GENESIS'')\<rparr>"

text \<open>
  One call of the function mapped over \<^verbatim>\<open>seedProducts\<close>:
  \<^verbatim>\<open>
  const seedBlocks = seedProducts.map((p, i, arr) => {
    const prev = i === 0 ? genesis.hash : arr[i - 1]._hashTemp || genesis.hash;
    const b = makeBlock(prev, { type: "LISTING", product: p, actor: p.farmer });
    b.index = i + 1;
    arr[i]._hashTemp = b.hash;
    return b;
  });
  return [genesis, ...seedBlocks];
  \<close>
  The state of the loop is the array \<open>arr\<close>, whose elements it mutates, and the blocks
  made so far. The product inside the block is the object \<open>arr[i]\<close> itself, so it shows
  the new \<^verbatim>\<open>_hashTemp\<close> as well (the hash was computed before). \<^verbatim>\<open>x || y\<close> is \<open>y\<close>
  when \<open>x\<close> is \<^verbatim>\<open>undefined\<close> or the empty string.
\<close>

definition seedBlock ::
  "builtins \<Rightarrow> block \<Rightarrow> (nat \<Rightarrow> entropy) \<Rightarrow> nat \<Rightarrow>
   product list \<times> block list \<Rightarrow> product list \<times> block list" where
  "seedBlock B g es i acc =
     (let arr = fst acc; bs = snd acc; p = arr ! i;
          prev = (if i = 0 then hash g
                  else (case hashTemp (arr ! (i - 1)) of
                          None \<Rightarrow> hash g
                        | Some h \<Rightarrow> if h = [] then hash g else h));
          b = makeBlock B (es i) prev (LISTING p (farmer p));
          b = b\<lparr>index := i + 1\<rparr>;
          p' = p\<lparr>hashTemp := Some (hash b)\<rparr>
      in (arr[i := p'], bs @ [b\<lparr>data := LISTING p' (farmer p)\<rparr>]))"

definition seedBlocks ::
  "builtins \<Rightarrow> block \<Rightarrow> (nat \<Rightarrow> entropy) \<Rightarrow> product list \<Rightarrow> product list \<times> block list" where
  "seedBlocks B g es arr = fold (seedBlock B g es) [0..<length arr] (arr, [])"

text \<open>
  \<^verbatim>\<open>useState(seedProducts)\<close> holds the array the initialiser of the chain mutates, so the
  products of the initial state carry \<^verbatim>\<open>_hashTemp\<close>.
\<close>

definition initial_state ::
  "builtins \<Rightarrow> jsstring \<Rightarrow> jsstring \<Rightarrow> (nat \<Rightarrow> entropy) \<Rightarrow> app_state" where
  "initial_state B now rnd es =
     (let g = genesis now rnd; r = seedBlocks B g es seedProducts
      in \<lparr>products = fst r, chain = g # snd r, user = None, toast = None\<rparr>)"

subsection \<open>Shared helpers: \<^verbatim>\<open>appendBlock\<close>, \<^verbatim>\<open>listProduct\<close>, \<^verbatim>\<open>orderProduct\<close>\<close>

datatype js_error = TypeError

text \<open>
  \<^verbatim>\<open>
  function appendBlock(data) {
    setChain((prev) => {
      const last = prev[prev.length - 1];
      const block = makeBlock(last.hash, data);
      block.index = last.index + 1;
      return [...prev, block];
    });
  }
  \<close>
  On an empty chain \<open>last\<close> is \<^verbatim>\<open>undefined\<close> and \<^verbatim>\<open>last.hash\<close> throws.
\<close>

definition appendBlock ::
  "builtins \<Rightarrow> entropy \<Rightarrow> payload \<Rightarrow> block list \<Rightarrow> js_error + block list" where
  "appendBlock B e d prev =
     (if prev = [] then Inl TypeError
      else let lst = last prev;
               b = makeBlock B e (hash lst) d;
               b = b\<lparr>index := index lst + 1\<rparr>
           in Inr (prev @ [b]))"

text \<open>The argument \<^verbatim>\<open>{ id, name, quantityKg, basePricePerKg, farmer }\<close> of \<^verbatim>\<open>listProduct\<close>;
  the two numeric fields are the texts of form fields.\<close>

record listing_request =
  req_id :: jsstring
  req_name :: jsstring
  req_quantityKg :: jsstring
  req_basePricePerKg :: jsstring
  req_farmer :: actor

text \<open>
  \<^verbatim>\<open>
  function listProduct({ id, name, quantityKg, basePricePerKg, farmer }) {
    const newProd = {
      id, name,
      quantityKg: Number(quantityKg),
      basePricePerKg: Number(basePricePerKg),
      farmer: { ...farmer, id: user.id }, // Ensure farmer.id matches logged-in user
      status: "LISTED",
    };
    setProducts((prev) => [newProd, ...prev]);
    appendBlock({ type: "LISTING", product: newProd, actor: { ...farmer, id: user.id } });
    setToast({ message: "Product listed successfully!", type: "success" });
  }
  \<close>
  \<^verbatim>\<open>user.id\<close> throws when nobody is logged in, before any state is set.
\<close>

definition listProduct ::
  "builtins \<Rightarrow> entropy \<Rightarrow> listing_request \<Rightarrow> app_state \<Rightarrow> js_error + app_state" where
  "listProduct B e req s =
     (case user s of
        None \<Rightarrow> Inl TypeError
      | Some u \<Rightarrow>
          let newProd =
                \<lparr>product_id = req_id req, product_name = req_name req,
                 quantityKg = Number B (req_quantityKg req),
                 basePricePerKg = Number B (req_basePricePerKg req),
                 farmer = (req_farmer req)\<lparr>actor_id := user_id u\<rparr>,
                 status = LISTED, broker = None, hashTemp = None\<rparr>
          in (case appendBlock B e
                     (LISTING newProd ((req_farmer req)\<lparr>actor_id := user_id u\<rparr>)) (chain s) of
                Inl x \<Rightarrow> Inl x
              | Inr c \<Rightarrow>
                  Inr (s\<lparr>products := newProd # products s, chain := c,
                         toast := Some \<lparr>message = lit ''Product listed successfully!'',
                                        toast_type = success\<rparr>\<rparr>)))"

text \<open>
  \<^verbatim>\<open>
  function orderProduct({ productId, broker }) {
    if (!window.confirm("Confirm order placement?")) return;
    setProducts((prev) =>
      prev.map((p) => p.id === productId ? { ...p, status: "SOLD", broker } : p));
    const prod = products.find((p) => p.id === productId);
    if (!prod) return;
    appendBlock({
      type: "TRANSFER",
      product: { id: prod.id, name: prod.name, quantityKg: prod.quantityKg },
      from: prod.farmer, to: broker, pricePerKg: prod.basePricePerKg,
    });
    setToast({ message: "Order placed successfully!", type: "success" });
  }
  \<close>
  \<open>products\<close> in the body is the list of the last render, the one the update starts from.
  \<open>soldTo\<close> is the function mapped over the products.
\<close>

definition soldTo :: "jsstring \<Rightarrow> actor \<Rightarrow> product \<Rightarrow> product" where
  "soldTo productId br p =
     (if product_id p = productId then p\<lparr>status := SOLD, broker := Some br\<rparr> else p)"

definition orderProduct ::
  "builtins \<Rightarrow> entropy \<Rightarrow> bool \<Rightarrow> jsstring \<Rightarrow> actor \<Rightarrow> app_state \<Rightarrow> js_error + app_state" where
  "orderProduct B e confirm productId br s =
     (if \<not> confirm then Inr s
      else
        let updatedProducts = map (soldTo productId br) (products s)
        in (case find (\<lambda>p. product_id p = productId) (products s) of
              None \<Rightarrow> Inr (s\<lparr>products := updatedProducts\<rparr>)
            | Some prd \<Rightarrow>
                (case appendBlock B e
                        (TRANSFER \<lparr>ref_id = product_id prd, ref_name = product_name prd,
                                   ref_quantityKg = quantityKg prd\<rparr>
                                  (farmer prd) br (basePricePerKg prd)) (chain s) of
                   Inl x \<Rightarrow> Inl x
                 | Inr c \<Rightarrow>
                     Inr (s\<lparr>products := updatedProducts, chain := c,
                            toast := Some \<lparr>message = lit ''Order placed successfully!'',
                                           toast_type = success\<rparr>\<rparr>))))"

subsection \<open>Views: login, farmer, broker, consumer, admin\<close>

text \<open>
  \<^verbatim>\<open>
  const handleLogin = () => {
    const foundUser = seedUsers.find(
      (u) => u.username === username && u.password === password && u.role === role);
    if (foundUser) { setUser(foundUser); setView(foundUser.role);
      setToast({ message: `Logged in as ${foundUser.name}!`, type: "success" }); ... }
    else { setError("Invalid credentials or role");
      setToast({ message: "Login failed!", type: "error" }); }
  };
  \<close>
\<close>

definition handleLogin :: "jsstring \<Rightarrow> jsstring \<Rightarrow> role \<Rightarrow> app_state \<Rightarrow> app_state" where
  "handleLogin un pw r s =
     (case find (\<lambda>u. username u = un \<and> password u = pw \<and> role u = r) seedUsers of
        Some foundUser \<Rightarrow>
          s\<lparr>user := Some foundUser,
            toast := Some \<lparr>message = lit ''Logged in as '' @ user_name foundUser @ lit ''!'',
                           toast_type = success\<rparr>\<rparr>
      | None \<Rightarrow> s\<lparr>toast := Some \<lparr>message = lit ''Login failed!'', toast_type = error\<rparr>\<rparr>)"

text \<open>The Logout button of \<^verbatim>\<open>Nav\<close>.\<close>

definition logout :: "app_state \<Rightarrow> app_state" where
  "logout s =
     s\<lparr>user := None,
       toast := Some \<lparr>message = lit ''Logged out successfully!'', toast_type = success\<rparr>\<rparr>"

text \<open>
  The form of the \<^verbatim>\<open>Farmer\<close> view. Its \<^verbatim>\<open>id\<close> is drawn when the form is created:
  \<^verbatim>\<open>id: `AGR-${Math.floor(1000 + Math.random() * 9000)}`\<close>; the argument of \<open>newFormId\<close>
  is the floored number, between 1000 and 9999.
\<close>

record farmer_form =
  form_id :: jsstring
  form_name :: jsstring
  form_quantityKg :: jsstring
  form_basePricePerKg :: jsstring
  farmerName :: jsstring
  form_village :: jsstring

fun toString10 :: "nat \<Rightarrow> jsstring" where
  "toString10 n =
     (if n < 10 then [48 + of_nat n] else toString10 (n div 10) @ [48 + of_nat (n mod 10)])"

declare toString10.simps [simp del]

definition newFormId :: "nat \<Rightarrow> jsstring" where
  "newFormId n = lit ''AGR-'' @ toString10 n"

text \<open>
  \<^verbatim>\<open>
  const validateForm = () => {
    const newErrors = {};
    if (!form.name) newErrors.name = "Product name is required";
    if (!form.quantityKg || form.quantityKg <= 0)
      newErrors.quantityKg = "Valid quantity is required";
    if (!form.basePricePerKg || form.basePricePerKg <= 0)
      newErrors.basePricePerKg = "Valid price is required";
    setErrors(newErrors);
    return Object.keys(newErrors).length === 0;
  };
  \<close>
  A form field is a string: \<^verbatim>\<open>!s\<close> holds of the empty string only, and \<^verbatim>\<open>s <= 0\<close>
  compares the number \<^verbatim>\<open>Number(s)\<close>.
\<close>

record form_errors =
  name_error :: "jsstring option"
  quantityKg_error :: "jsstring option"
  basePricePerKg_error :: "jsstring option"

definition newErrors :: "builtins \<Rightarrow> farmer_form \<Rightarrow> form_errors" where
  "newErrors B form =
     \<lparr>name_error =
        (if form_name form = [] then Some (lit ''Product name is required'') else None),
      quantityKg_error =
        (if form_quantityKg form = [] \<or> le_zero (Number B (form_quantityKg form))
         then Some (lit ''Valid quantity is required'') else None),
      basePricePerKg_error =
        (if form_basePricePerKg form = [] \<or> le_zero (Number B (form_basePricePerKg form))
         then Some (lit ''Valid price is required'') else None)\<rparr>"

definition validateForm :: "builtins \<Rightarrow> farmer_form \<Rightarrow> bool" where
  "validateForm B form =
     (newErrors B form =
        \<lparr>name_error = None, quantityKg_error = None, basePricePerKg_error = None\<rparr>)"

text \<open>
  The button \<^emph>\<open>Upload to Blockchain\<close>. The view renders the form for a farmer only
  (\<^verbatim>\<open>if (user?.role !== "farmer") return ...Access denied...\<close>), and the button is
  \<^verbatim>\<open>disabled={!form.name || !form.quantityKg || !form.basePricePerKg}\<close>.
  \<^verbatim>\<open>
  onClick={() => {
    if (!validateForm()) return;
    listProduct({
      id: form.id, name: form.name,
      quantityKg: form.quantityKg, basePricePerKg: form.basePricePerKg,
      farmer: { id: user.id, name: form.farmerName, village: form.village || DASH },
    });
    ...
  }}
  \<close>
  where \<^verbatim>\<open>DASH\<close> stands for the string literal of the one code unit \<open>0x2014\<close>, an em dash.
\<close>

definition Farmer_upload ::
  "builtins \<Rightarrow> entropy \<Rightarrow> farmer_form \<Rightarrow> app_state \<Rightarrow> js_error + app_state" where
  "Farmer_upload B e form s =
     (case user s of
        None \<Rightarrow> Inr s
      | Some u \<Rightarrow>
          if role u \<noteq> farmer_role then Inr s
          else if form_name form = [] \<or> form_quantityKg form = []
                  \<or> form_basePricePerKg form = [] then Inr s
          else if \<not> validateForm B form then Inr s
          else listProduct B e
                 \<lparr>req_id = form_id form, req_name = form_name form,
                  req_quantityKg = form_quantityKg form,
                  req_basePricePerKg = form_basePricePerKg form,
                  req_farmer =
                    \<lparr>actor_id = user_id u, actor_name = farmerName form,
                     village = Some (if form_village form = [] then [0x2014]
                                     else form_village form)\<rparr>\<rparr> s)"

text \<open>
  The \<^verbatim>\<open>Broker\<close> view shows one row with an \<^emph>\<open>Order\<close> button for each product of
  \<^verbatim>\<open>available = products.filter((p) => p.status === "LISTED")\<close>; the button of row \<open>i\<close>
  calls \<^verbatim>\<open>orderProduct({ productId: p.id, broker })\<close>, where \<open>broker\<close> is
  \<^verbatim>\<open>{ id: user.id, name }\<close> with the name typed into the view.
\<close>

definition available :: "app_state \<Rightarrow> product list" where
  "available s = filter (\<lambda>p. status p = LISTED) (products s)"

definition Broker_order ::
  "builtins \<Rightarrow> entropy \<Rightarrow> bool \<Rightarrow> nat \<Rightarrow> jsstring \<Rightarrow> app_state \<Rightarrow> js_error + app_state" where
  "Broker_order B e confirm i brokerName s =
     (case user s of
        None \<Rightarrow> Inr s
      | Some u \<Rightarrow>
          if role u \<noteq> broker_role then Inr s
          else if length (available s) \<le> i then Inr s
          else orderProduct B e confirm (product_id (available s ! i))
                 \<lparr>actor_id = user_id u, actor_name = brokerName, village = None\<rparr> s)"

text \<open>
  The \<^verbatim>\<open>Consumer\<close> view traces a product id through the chain:
  \<^verbatim>\<open>
  const record = useMemo(() => {
    if (!query) return null;
    const related = chain.filter((b) => b.data?.product?.id === query);
    if (!related.length) return null;
    const listing = related.find((b) => b.data?.type === "LISTING");
    const transfer = related.find((b) => b.data?.type === "TRANSFER");
    return { listing, transfer };
  }, [query, chain]);
  \<close>
  \<^verbatim>\<open>find\<close> gives \<^verbatim>\<open>undefined\<close> when no element matches; that and \<^verbatim>\<open>null\<close> are \<open>None\<close>.
\<close>

fun productIdOf :: "payload \<Rightarrow> jsstring option" where
  "productIdOf (GENESIS m) = None"
| "productIdOf (LISTING p a) = Some (product_id p)"
| "productIdOf (TRANSFER r f t n) = Some (ref_id r)"

fun isLISTING :: "payload \<Rightarrow> bool" where
  "isLISTING (LISTING p a) = True"
| "isLISTING d = False"

fun isTRANSFER :: "payload \<Rightarrow> bool" where
  "isTRANSFER (TRANSFER r f t n) = True"
| "isTRANSFER d = False"

record trace =
  listing :: "block option"
  transfer :: "block option"

definition Consumer_record :: "block list \<Rightarrow> jsstring \<Rightarrow> trace option" where
  "Consumer_record c query =
     (if query = [] then None
      else let related = filter (\<lambda>b. productIdOf (data b) = Some query) c
           in if related = [] then None
              else Some \<lparr>listing = find (\<lambda>b. isLISTING (data b)) related,
                         transfer = find (\<lambda>b. isTRANSFER (data b)) related\<rparr>)"

text \<open>
  \<^verbatim>\<open>
  const resetBlockchain = () => {
    if (!window.confirm("Reset the blockchain? ...")) return;
    const genesis = { ... };
    setChain([genesis]);
    setProducts([]);
    setToast({ message: "Blockchain reset successfully!", type: "success" });
  };
  \<close>
\<close>

definition resetBlockchain :: "jsstring \<Rightarrow> jsstring \<Rightarrow> bool \<Rightarrow> app_state \<Rightarrow> app_state" where
  "resetBlockchain now rnd confirm s =
     (if \<not> confirm then s
      else s\<lparr>chain := [genesis now rnd], products := [],
             toast := Some \<lparr>message = lit ''Blockchain reset successfully!'',
                            toast_type = success\<rparr>\<rparr>)"

text \<open>The \<^verbatim>\<open>Admin\<close> view renders the reset button for an admin only.\<close>

definition Admin_reset :: "jsstring \<Rightarrow> jsstring \<Rightarrow> bool \<Rightarrow> app_state \<Rightarrow> app_state" where
  "Admin_reset now rnd confirm s =
     (case user s of
        None \<Rightarrow> s
      | Some u \<Rightarrow> if role u \<noteq> admin_role then s else resetBlockchain now rnd confirm s)"

subsection \<open>Reachable states\<close>

text \<open>
  One event of the user interface. The form a farmer submits carries a drawn id and the
  name of the logged-in user (both fields are disabled in the view).
\<close>

inductive step :: "builtins \<Rightarrow> app_state \<Rightarrow> app_state \<Rightarrow> bool" for B :: builtins where
  login: "step B s (handleLogin un pw r s)"
| logged_out: "step B s (logout s)"
| upload:
    "user s = Some u \<Longrightarrow> form_id form = newFormId n \<Longrightarrow> 1000 \<le> n \<Longrightarrow> n \<le> 9999 \<Longrightarrow>
     farmerName form = user_name u \<Longrightarrow> Farmer_upload B e form s = Inr s' \<Longrightarrow> step B s s'"
| order: "Broker_order B e c i nm s = Inr s' \<Longrightarrow> step B s s'"
| reset: "step B s (Admin_reset now rnd c s)"
| toast_cleared: "step B s (s\<lparr>toast := None\<rparr>)"

text \<open>The states of the component: the initial one and every state events lead to.\<close>

inductive reachable :: "builtins \<Rightarrow> app_state \<Rightarrow> bool" for B :: builtins where
  initial: "reachable B (initial_state B now rnd es)"
| event: "reachable B s \<Longrightarrow> step B s s' \<Longrightarrow> reachable B s'"

text \<open>
  The chains alone, with \<^verbatim>\<open>appendBlock\<close> called on any data: the seeded chain, a chain
  after a call of \<^verbatim>\<open>appendBlock\<close>, the chain after a reset.
\<close>

inductive ledger :: "builtins \<Rightarrow> block list \<Rightarrow> bool" for B :: builtins where
  seeded: "ledger B (chain (initial_state B now rnd es))"
| appended: "ledger B c \<Longrightarrow> appendBlock B e d c = Inr c' \<Longrightarrow> ledger B c'"
| cleared: "ledger B [genesis now rnd]"

subsection \<open>Verification of a chain\<close>

text \<open>
  Modelled from the spec: \<^verbatim>\<open>verify()\<close> of the Ledger, which \<^verbatim>\<open>App.jsx\<close> does not
  have. The spec: it ``scans the full sequence, confirms each block's previousHash matches
  the predecessor's hash and each hash matches recomputation; returns false on first
  mismatch, reporting the offending index''. The recomputation is an argument: it is given
  the position and the block. \<open>ChainValid\<close> is the answer true, \<open>Mismatch i\<close> the answer
  false with the offending index.
\<close>

datatype verdict = ChainValid | Mismatch nat

fun verify_from ::
  "(nat \<Rightarrow> block \<Rightarrow> jsstring) \<Rightarrow> nat \<Rightarrow> block option \<Rightarrow> block list \<Rightarrow> verdict" where
  "verify_from f i pre [] = ChainValid"
| "verify_from f i pre (b # bs) =
     (if (case pre of None \<Rightarrow> True | Some a \<Rightarrow> prevHash b = hash a) \<and> hash b = f i b
      then verify_from f (Suc i) (Some b) bs
      else Mismatch i)"

definition verify :: "(nat \<Rightarrow> block \<Rightarrow> jsstring) \<Rightarrow> block list \<Rightarrow> verdict" where
  "verify f c = verify_from f 0 None c"

text \<open>
  Modelled from the spec: \<^verbatim>\<open>computeHash(previousHash, payload, timestamp)\<close> applied to the
  fields of a block, computed the way \<^verbatim>\<open>makeBlock\<close> computes a hash. The first argument
  after the built-ins is the random draw of this call of \<^verbatim>\<open>pseudoHash\<close>.
\<close>

definition recomputeHash :: "builtins \<Rightarrow> jsstring \<Rightarrow> block \<Rightarrow> jsstring" where
  "recomputeHash B rnd b =
     pseudoHash rnd (prevHash b @ JSON_stringify B (data b) @ timestamp b)"

subsection \<open>The built-ins on a fragment, for worked examples\<close>

text \<open>
  The theorems below hold for all built-ins. The examples fix them on a fragment where
  their values are easy to write down: \<^verbatim>\<open>Number\<close> on the empty string (zero) and on an
  optional minus sign followed by decimal digits denoting an integer of magnitude at most
  \<open>2 ^ 53\<close>; \<^verbatim>\<open>JSON.stringify\<close> on data whose strings need no escape and whose numbers are
  such integers, \<^verbatim>\<open>NaN\<close> or infinite (printed \<^verbatim>\<open>null\<close>). Outside the fragment the
  functions below are not the built-ins.
\<close>

fun readDigits :: "nat \<Rightarrow> jsstring \<Rightarrow> nat option" where
  "readDigits acc [] = Some acc"
| "readDigits acc (c # cs) =
     (if 48 \<le> c \<and> c \<le> 57 then readDigits (acc * 10 + (unat c - 48)) cs else None)"

definition Number_decimal :: "jsstring \<Rightarrow> jsnumber" where
  "Number_decimal s =
     (case s of
        [] \<Rightarrow> Finite 0
      | c # cs \<Rightarrow>
          if c = 45 \<and> cs \<noteq> []
          then (case readDigits 0 cs of None \<Rightarrow> NaN | Some n \<Rightarrow> Finite (- of_nat n))
          else (case readDigits 0 s of None \<Rightarrow> NaN | Some n \<Rightarrow> Finite (of_nat n)))"

definition json_string :: "jsstring \<Rightarrow> jsstring" where
  "json_string s = [34] @ s @ [34]"

definition json_number :: "jsnumber \<Rightarrow> jsstring" where
  "json_number x =
     (case x of
        Finite r \<Rightarrow> (if r < 0 then lit ''-'' else []) @ toString10 (nat \<bar>\<lfloor>r\<rfloor>\<bar>)
      | _ \<Rightarrow> lit ''null'')"

fun commaSep :: "jsstring list \<Rightarrow> jsstring" where
  "commaSep [] = []"
| "commaSep [x] = x"
| "commaSep (x # y # zs) = x @ lit '','' @ commaSep (y # zs)"

definition json_object :: "(string \<times> jsstring) list \<Rightarrow> jsstring" where
  "json_object ms =
     lit ''{'' @ commaSep (map (\<lambda>(k, v). json_string (lit k) @ lit '':'' @ v) ms) @ lit ''}''"

definition json_actor :: "actor \<Rightarrow> jsstring" where
  "json_actor a =
     json_object ([(''id'', json_string (actor_id a)), (''name'', json_string (actor_name a))]
       @ (case village a of None \<Rightarrow> [] | Some v \<Rightarrow> [(''village'', json_string v)]))"

definition json_product :: "product \<Rightarrow> jsstring" where
  "json_product p =
     json_object ([(''id'', json_string (product_id p)),
        (''name'', json_string (product_name p)),
        (''quantityKg'', json_number (quantityKg p)),
        (''basePricePerKg'', json_number (basePricePerKg p)),
        (''farmer'', json_actor (farmer p)),
        (''status'', json_string (case status p of LISTED \<Rightarrow> lit ''LISTED'' | SOLD \<Rightarrow> lit ''SOLD''))]
       @ (case hashTemp p of None \<Rightarrow> [] | Some h \<Rightarrow> [(''_hashTemp'', json_string h)])
       @ (case broker p of None \<Rightarrow> [] | Some b \<Rightarrow> [(''broker'', json_actor b)]))"

definition json_payload :: "payload \<Rightarrow> jsstring" where
  "json_payload d =
     (case d of
        GENESIS m \<Rightarrow>
          json_object [(''type'', json_string (lit ''GENESIS'')), (''message'', json_string m)]
      | LISTING p a \<Rightarrow>
          json_object [(''type'', json_string (lit ''LISTING'')), (''product'', json_product p),
                       (''actor'', json_actor a)]
      | TRANSFER r f t n \<Rightarrow>
          json_object [(''type'', json_string (lit ''TRANSFER'')),
            (''product'', json_object [(''id'', json_string (ref_id r)),
                                       (''name'', json_string (ref_name r)),
                                       (''quantityKg'', json_number (ref_quantityKg r))]),
            (''from'', json_actor f), (''to'', json_actor t), (''pricePerKg'', json_number n)])"

definition fragment_builtins :: builtins where
  "fragment_builtins = \<lparr>JSON_stringify = json_payload, Number = Number_decimal\<rparr>"

subsection \<open>Invariants\<close>

text \<open>Each block after the first names the hash of the block before it and counts one up.\<close>

fun linked :: "block list \<Rightarrow> bool" where
  "linked (a # b # bs) = (prevHash b = hash a \<and> index b = Suc (index a) \<and> linked (b # bs))"
| "linked bs = True"

definition wellFormed :: "block list \<Rightarrow> bool" where
  "wellFormed c =
     (case c of
        [] \<Rightarrow> False
      | g # bs \<Rightarrow> prevHash g = lit ''0xGENESIS'' \<and> index g = 0 \<and> linked c)"

text \<open>Every transfer comes after a listing of the same product id.\<close>

definition listedFirst :: "block list \<Rightarrow> bool" where
  "listedFirst c \<longleftrightarrow>
     (\<forall>j<length c. isTRANSFER (data (c ! j)) \<longrightarrow>
        (\<exists>i<j. isLISTING (data (c ! i)) \<and>
                productIdOf (data (c ! i)) = productIdOf (data (c ! j))))"

text \<open>What every reachable state satisfies: no block and no product has the empty id, and
  every product has a listing in the chain.\<close>

definition consistent :: "app_state \<Rightarrow> bool" where
  "consistent s \<longleftrightarrow>
     wellFormed (chain s) \<and> listedFirst (chain s) \<and>
     (\<forall>b\<in>set (chain s). productIdOf (data b) \<noteq> Some []) \<and>
     (\<forall>p\<in>set (products s). product_id p \<noteq> [] \<and>
        (\<exists>b\<in>set (chain s). isLISTING (data b) \<and>
                             productIdOf (data b) = Some (product_id p)))"

subsection \<open>Worked examples: inputs and states\<close>

text \<open>
  Two readings of the outside world that differ in the random draw only, the seeded state,
  and the states after a login of \<open>farmer1\<close>, \<open>broker1\<close> or \<open>admin\<close>.
\<close>

definition tick :: entropy where
  "tick = \<lparr>hashTime = lit ''2025-01-01T10:00:00.000Z'', random = lit ''1a2b3c4d'',
            blockTime = lit ''2025-01-01T10:00:00.000Z''\<rparr>"

definition tock :: entropy where
  "tock = \<lparr>hashTime = lit ''2025-01-01T10:00:00.000Z'', random = lit ''9f8e7d6c'',
            blockTime = lit ''2025-01-01T10:00:00.000Z''\<rparr>"

definition demo_initial :: app_state where
  "demo_initial =
     initial_state fragment_builtins (lit ''2025-01-01T09:00:00.000Z'') (lit ''0f0f0f0f'')
       (\<lambda>i. tick)"

definition demo_farmer :: app_state where
  "demo_farmer = handleLogin (lit ''farmer1'') (lit ''password1'') farmer_role demo_initial"

definition demo_broker :: app_state where
  "demo_broker = handleLogin (lit ''broker1'') (lit ''password1'') broker_role demo_initial"

text \<open>A form whose drawn id is that of a seed product, and the state after its upload.\<close>

definition demo_form :: farmer_form where
  "demo_form =
     \<lparr>form_id = newFormId 1001, form_name = lit ''Wheat'', form_quantityKg = lit ''40'',
      form_basePricePerKg = lit ''31'', farmerName = lit ''Ravi Kumar'',
      form_village = lit ''Narsinghpur''\<rparr>"

definition demo_duplicate :: app_state where
  "demo_duplicate = projr (Farmer_upload fragment_builtins tick demo_form demo_farmer)"

text \<open>
  After that upload the farmer logs out and \<open>broker1\<close> logs in and orders the first row
  of the view.
\<close>

definition demo_duplicate_broker :: app_state where
  "demo_duplicate_broker =
     handleLogin (lit ''broker1'') (lit ''password1'') broker_role (logout demo_duplicate)"

definition demo_both_sold :: app_state where
  "demo_both_sold =
     projr (Broker_order fragment_builtins tock True 0 (lit ''GreenSupply Pvt Ltd'')
              demo_duplicate_broker)"

text \<open>The broker orders the first row of the view; then \<^verbatim>\<open>orderProduct\<close> is called once
  more on the same id; then the admin logs in.\<close>

definition demo_buyer :: actor where
  "demo_buyer = \<lparr>actor_id = lit ''B-001'', actor_name = lit ''GreenSupply Pvt Ltd'', village = None\<rparr>"

definition demo_sold :: app_state where
  "demo_sold =
     projr (Broker_order fragment_builtins tick True 0 (lit ''GreenSupply Pvt Ltd'') demo_broker)"


definition demo_admin :: app_state where
  "demo_admin = handleLogin (lit ''admin'') (lit ''password'') admin_role demo_sold"

text \<open>A form and a request with quantity zero and a negative price.\<close>

definition zero_form :: farmer_form where
  "zero_form = demo_form\<lparr>form_quantityKg := lit ''0'', form_basePricePerKg := lit ''-5''\<rparr>"

definition zero_request :: listing_request where
  "zero_request =
     \<lparr>req_id = lit ''AGR-2000'', req_name = lit ''Wheat'', req_quantityKg = lit ''0'',
      req_basePricePerKg = lit ''-5'',
      req_farmer = \<lparr>actor_id = lit ''F-001'', actor_name = lit ''Ravi Kumar'',
                     village = Some (lit ''Narsinghpur'')\<rparr>\<rparr>"

definition demo_zero :: app_state where
  "demo_zero = projr (listProduct fragment_builtins tick zero_request demo_farmer)"

text \<open>A request that names another farmer than the one logged in.\<close>

definition forged_request :: listing_request where
  "forged_request =
     \<lparr>req_id = lit ''AGR-4711'', req_name = lit ''Wheat'', req_quantityKg = lit ''40'',
      req_basePricePerKg = lit ''31'',
      req_farmer = \<lparr>actor_id = lit ''F-002'', actor_name = lit ''Sita Devi'',
                     village = Some (lit ''Rewa'')\<rparr>\<rparr>"

definition demo_forged :: app_state where
  "demo_forged = projr (listProduct fragment_builtins tick forged_request demo_farmer)"

text \<open>A recomputation of hashes whose every random draw is \<open>00000000\<close>.\<close>

definition demo_recompute :: "nat \<Rightarrow> block \<Rightarrow> jsstring" where
  "demo_recompute i b = recomputeHash fragment_builtins (lit ''00000000'') b"

section \<open>Properties\<close>

subsection \<open>Strings and hashes\<close>

lemma inj_charCode: "inj charCode"
proof (rule injI)
  fix c d assume "charCode c = charCode d"
  then have "unat (of_nat (of_char c) :: 16 word) = unat (of_nat (of_char d) :: 16 word)"
    by (simp add: charCode_def)
  moreover have "(of_char c :: nat) < 256" "(of_char d :: nat) < 256" by simp_all
  ultimately have "(of_char c :: nat) = of_char d" by (simp add: unat_of_nat)
  then show "c = d" by simp
qed

lemma lit_eq_iff [simp]: "lit a = lit b \<longleftrightarrow> a = b"
  by (simp add: lit_def inj_map_eq_map [OF inj_charCode])

lemma lit_Nil_iff [simp]: "lit a = [] \<longleftrightarrow> a = []" "[] = lit a \<longleftrightarrow> a = []"
  by (auto simp: lit_def)

lemma length_lit [simp]: "length (lit a) = length a"
  by (simp add: lit_def)

lemma length_toString16: "n < 16 ^ k \<Longrightarrow> 0 < k \<Longrightarrow> length (toString16 n) \<le> k"
proof (induction n arbitrary: k rule: toString16.induct)
  case (1 n)
  show ?case
  proof (cases "n < 16")
    case True
    with "1.prems" show ?thesis by (simp add: toString16.simps [of n])
  next
    case False
    from "1.prems" obtain j where k: "k = Suc j" by (cases k) auto
    from False "1.prems" k have j: "0 < j" by (cases j) auto
    from "1.prems" k have "n div 16 < 16 ^ j"
      by (simp add: less_mult_imp_div_less mult.commute)
    with j have "length (toString16 (n div 16)) \<le> j"
      using "1.IH" [OF False] by blast
    with False k show ?thesis by (simp add: toString16.simps [of n])
  qed
qed

lemma length_toString16_word: "length (toString16 (unat (w :: 32 word))) \<le> 8"
proof -
  have "unat w < 2 ^ 32" using unsigned_less [of w] by simp
  then have "unat w < 16 ^ 8" by simp
  then show ?thesis by (rule length_toString16) simp
qed

lemma length_padStart_zero: "length s \<le> n \<Longrightarrow> length (padStart n (lit ''0'') s) = n"
  by (auto simp: padStart_def lit_def)

lemma length_hash_prefix:
  "length (toUpperCase (padStart 8 (lit ''0'') (toString16 (unat (checksum x))))) = 8"
  by (simp add: toUpperCase_def length_padStart_zero length_toString16_word)

lemma pseudoHash_split:
  "pseudoHash rnd x =
     toUpperCase (padStart 8 (lit ''0'') (toString16 (unat (checksum x)))) @ toUpperCase rnd"
  by (simp add: pseudoHash_def toUpperCase_def)

lemma take8_pseudoHash:
  "take 8 (pseudoHash rnd x) =
     toUpperCase (padStart 8 (lit ''0'') (toString16 (unat (checksum x))))"
  by (simp add: pseudoHash_split length_hash_prefix)

lemma drop8_pseudoHash: "drop 8 (pseudoHash rnd x) = toUpperCase rnd"
  by (simp add: pseudoHash_split length_hash_prefix)

lemma length_pseudoHash: "length (pseudoHash rnd x) = 8 + length rnd"
  by (simp add: pseudoHash_split length_hash_prefix) (simp add: toUpperCase_def)

lemma pseudoHash_not_Nil [simp]: "pseudoHash rnd x \<noteq> []"
  using length_pseudoHash [of rnd x] by auto

lemma hash_makeBlock [simp]:
  "hash (makeBlock B e prev d) = pseudoHash (random e) (prev @ JSON_stringify B d @ hashTime e)"
  "prevHash (makeBlock B e prev d) = prev"
  "data (makeBlock B e prev d) = d"
  "timestamp (makeBlock B e prev d) = blockTime e"
  "index (makeBlock B e prev d) = 0"
  by (simp_all add: makeBlock_def)

lemma toUpperCase_examples:
  "toUpperCase (lit ''1a2b3c4d'') = lit ''1A2B3C4D''"
  "toUpperCase (lit ''9f8e7d6c'') = lit ''9F8E7D6C''"
  "toUpperCase (lit ''0f0f0f0f'') = lit ''0F0F0F0F''"
  "toUpperCase (lit ''00000000'') = lit ''00000000''"
  by (simp_all add: toUpperCase_def upperChar_def lit_def charCode_def)

lemma toString10_not_Nil [simp]: "toString10 n \<noteq> []"
  by (subst toString10.simps) simp

lemma newFormId_not_Nil [simp]: "newFormId n \<noteq> []"
  by (simp add: newFormId_def)

lemma newFormId_1001: "newFormId 1001 = lit ''AGR-1001''"
  by (simp add: newFormId_def toString10.simps lit_def charCode_def)

lemma Number_decimal_examples:
  "Number_decimal (lit ''40'') = Finite 40" "Number_decimal (lit ''31'') = Finite 31"
  "Number_decimal (lit ''0'') = Finite 0" "Number_decimal (lit ''-5'') = Finite (- 5)"
  by (simp_all add: Number_decimal_def lit_def charCode_def)

subsection \<open>The hash of a block\<close>

text \<open>
  Claim C3, amended. The hash \<^verbatim>\<open>makeBlock\<close> stores is a function of the previous hash, the
  payload, the reading of the clock taken for the hash, and the random draw made inside
  \<^verbatim>\<open>pseudoHash\<close>. Two calls that agree on the first three agree on the first eight
  characters of the hash (the checksum), and the two hashes are equal exactly when the
  upper-cased draws are equal.
\<close>

theorem makeBlock_hash_determined:
  "hashTime e1 = hashTime e2 \<Longrightarrow>
     take 8 (hash (makeBlock B e1 prev d)) = take 8 (hash (makeBlock B e2 prev d)) \<and>
     (hash (makeBlock B e1 prev d) = hash (makeBlock B e2 prev d)
        \<longleftrightarrow> toUpperCase (random e1) = toUpperCase (random e2))"
  by (simp add: take8_pseudoHash) (simp add: pseudoHash_split)

text \<open>Claim C3, an instance: the two example readings show the same time.\<close>

theorem makeBlock_hash_determined_witness:
  "hashTime tick = hashTime tock \<and>
   take 8 (hash (makeBlock fragment_builtins tick (lit ''0xGENESIS'') (GENESIS (lit ''hello'')))) =
   take 8 (hash (makeBlock fragment_builtins tock (lit ''0xGENESIS'') (GENESIS (lit ''hello'')))) \<and>
   (hash (makeBlock fragment_builtins tick (lit ''0xGENESIS'') (GENESIS (lit ''hello''))) =
    hash (makeBlock fragment_builtins tock (lit ''0xGENESIS'') (GENESIS (lit ''hello'')))
      \<longleftrightarrow> toUpperCase (random tick) = toUpperCase (random tock))"
proof -
  have h: "hashTime tick = hashTime tock" by (simp add: tick_def tock_def)
  from makeBlock_hash_determined [OF h] h show ?thesis by blast
qed

text \<open>
  Claim C3 as stated fails: two calls with the same previous hash, the same payload and the
  same readings of the clock, and two different hashes.
\<close>

theorem makeBlock_hash_not_determined:
  "hashTime tick = hashTime tock \<and> blockTime tick = blockTime tock \<and>
   hash (makeBlock fragment_builtins tick (lit ''0xGENESIS'')
           (LISTING (seedProducts ! 0) (farmer (seedProducts ! 0)))) \<noteq>
   hash (makeBlock fragment_builtins tock (lit ''0xGENESIS'')
           (LISTING (seedProducts ! 0) (farmer (seedProducts ! 0))))"
  by (simp add: tick_def tock_def pseudoHash_split toUpperCase_examples)

subsection \<open>What the operations return\<close>

lemma appendBlock_Inr:
  "appendBlock B e d c = Inr c' \<longleftrightarrow>
     c \<noteq> [] \<and> c' = c @ [(makeBlock B e (hash (last c)) d)\<lparr>index := Suc (index (last c))\<rparr>]"
  by (auto simp: appendBlock_def Let_def)

lemma appendBlock_Inl: "appendBlock B e d c = Inl x \<longleftrightarrow> c = []"
  by (cases x) (auto simp: appendBlock_def Let_def)

lemma listProduct_logged_in:
  "user s = Some u \<Longrightarrow> chain s \<noteq> [] \<Longrightarrow>
   listProduct B e req s =
     Inr (s\<lparr>products :=
              \<lparr>product_id = req_id req, product_name = req_name req,
               quantityKg = Number B (req_quantityKg req),
               basePricePerKg = Number B (req_basePricePerKg req),
               farmer = (req_farmer req)\<lparr>actor_id := user_id u\<rparr>,
               status = LISTED, broker = None, hashTemp = None\<rparr> # products s,
            chain := chain s @
              [(makeBlock B e (hash (last (chain s)))
                  (LISTING \<lparr>product_id = req_id req, product_name = req_name req,
                            quantityKg = Number B (req_quantityKg req),
                            basePricePerKg = Number B (req_basePricePerKg req),
                            farmer = (req_farmer req)\<lparr>actor_id := user_id u\<rparr>,
                            status = LISTED, broker = None, hashTemp = None\<rparr>
                           ((req_farmer req)\<lparr>actor_id := user_id u\<rparr>)))
                 \<lparr>index := Suc (index (last (chain s)))\<rparr>],
            toast := Some \<lparr>message = lit ''Product listed successfully!'',
                           toast_type = success\<rparr>\<rparr>)"
  by (simp add: listProduct_def appendBlock_def Let_def)

lemma listProduct_TypeError:
  "user s = None \<or> chain s = [] \<Longrightarrow> listProduct B e req s = Inl TypeError"
  by (cases "user s") (auto simp: listProduct_def appendBlock_def Let_def)

lemma listProduct_Inr_iff:
  "(\<exists>s'. listProduct B e req s = Inr s') \<longleftrightarrow> user s \<noteq> None \<and> chain s \<noteq> []"
proof (cases "user s = None \<or> chain s = []")
  case True
  then show ?thesis using listProduct_TypeError [OF True, of B e req] by auto
next
  case False
  then obtain u where "user s = Some u" "chain s \<noteq> []" by auto
  then show ?thesis using listProduct_logged_in [of s u B e req] by simp
qed

lemma product_id_soldTo [simp]: "product_id (soldTo pid br p) = product_id p"
  by (simp add: soldTo_def)

lemma orderProduct_declined: "orderProduct B e False pid br s = Inr s"
  by (simp add: orderProduct_def)

lemma orderProduct_unknown:
  assumes "find (\<lambda>p. product_id p = pid) (products s) = None"
  shows "orderProduct B e c pid br s = Inr s"
proof -
  from assms have "\<forall>p\<in>set (products s). product_id p \<noteq> pid" by (simp add: find_None_iff)
  then have "map (soldTo pid br) (products s) = products s"
    by (simp add: map_idI soldTo_def)
  with assms show ?thesis by (simp add: orderProduct_def)
qed

lemma orderProduct_found:
  "find (\<lambda>p. product_id p = pid) (products s) = Some prd \<Longrightarrow> chain s \<noteq> [] \<Longrightarrow>
   orderProduct B e True pid br s =
     Inr (s\<lparr>products := map (soldTo pid br) (products s),
            chain := chain s @
              [(makeBlock B e (hash (last (chain s)))
                  (TRANSFER \<lparr>ref_id = product_id prd, ref_name = product_name prd,
                             ref_quantityKg = quantityKg prd\<rparr>
                            (farmer prd) br (basePricePerKg prd)))
                 \<lparr>index := Suc (index (last (chain s)))\<rparr>],
            toast := Some \<lparr>message = lit ''Order placed successfully!'',
                           toast_type = success\<rparr>\<rparr>)"
  by (simp add: orderProduct_def appendBlock_def Let_def)

lemma orderProduct_found_empty:
  "find (\<lambda>p. product_id p = pid) (products s) = Some prd \<Longrightarrow> chain s = [] \<Longrightarrow>
   orderProduct B e True pid br s = Inl TypeError"
  by (simp add: orderProduct_def appendBlock_def Let_def)

lemma orderProduct_cases:
  assumes "orderProduct B e c pid br s = Inr s'"
  obtains "s' = s"
  | prd where "c" "find (\<lambda>p. product_id p = pid) (products s) = Some prd" "chain s \<noteq> []"
      "orderProduct B e True pid br s = Inr s'"
proof (cases "c \<and> find (\<lambda>p. product_id p = pid) (products s) \<noteq> None")
  case False
  then have "orderProduct B e c pid br s = Inr s"
    using orderProduct_declined [of B e pid br s] orderProduct_unknown [of pid s B e c br]
    by (cases c) auto
  with assms that(1) show ?thesis by simp
next
  case True
  then obtain prd where c: "c"
    and f: "find (\<lambda>p. product_id p = pid) (products s) = Some prd" by auto
  have "chain s \<noteq> []"
  proof
    assume "chain s = []"
    with assms c f show False by (simp add: orderProduct_found_empty)
  qed
  with assms c f that(2) show ?thesis by simp
qed

lemma Farmer_upload_cases:
  assumes "Farmer_upload B e form s = Inr s'"
  obtains "s' = s"
  | u where "user s = Some u" "role u = farmer_role" "validateForm B form"
      "listProduct B e
         \<lparr>req_id = form_id form, req_name = form_name form,
          req_quantityKg = form_quantityKg form,
          req_basePricePerKg = form_basePricePerKg form,
          req_farmer = \<lparr>actor_id = user_id u, actor_name = farmerName form,
             village = Some (if form_village form = [] then [0x2014]
                             else form_village form)\<rparr>\<rparr> s = Inr s'"
  using assms by (simp add: Farmer_upload_def split: option.splits if_splits)

lemma Broker_order_cases:
  assumes "Broker_order B e c i nm s = Inr s'"
  obtains "s' = s"
  | u where "user s = Some u" "role u = broker_role" "i < length (available s)"
      "orderProduct B e c (product_id (available s ! i))
         \<lparr>actor_id = user_id u, actor_name = nm, village = None\<rparr> s = Inr s'"
  using assms by (simp add: Broker_order_def split: option.splits if_splits)

subsection \<open>The chain stays linked\<close>

lemma linked_snoc:
  "c \<noteq> [] \<Longrightarrow>
   linked (c @ [b]) = (linked c \<and> prevHash b = hash (last c) \<and> index b = Suc (index (last c)))"
  by (induction c rule: linked.induct) auto

lemma linked_nth:
  "linked c \<Longrightarrow> Suc i < length c \<Longrightarrow>
   prevHash (c ! Suc i) = hash (c ! i) \<and> index (c ! Suc i) = Suc (index (c ! i))"
proof (induction c arbitrary: i rule: linked.induct)
  case (1 a b bs)
  then show ?case by (cases i) auto
qed auto

lemma wellFormed_index: "wellFormed c \<Longrightarrow> i < length c \<Longrightarrow> index (c ! i) = i"
proof (induction i)
  case 0
  then show ?case by (cases c) (auto simp: wellFormed_def)
next
  case (Suc i)
  then have "linked c" by (cases c) (auto simp: wellFormed_def)
  from linked_nth [OF this Suc.prems(2)] Suc show ?case by simp
qed

lemma wellFormed_genesis [simp]: "wellFormed [genesis now rnd]"
  by (simp add: wellFormed_def genesis_def)

lemma wellFormed_appendBlock:
  "wellFormed c \<Longrightarrow> appendBlock B e d c = Inr c' \<Longrightarrow> wellFormed c'"
  by (cases c) (auto simp: wellFormed_def appendBlock_def Let_def linked_snoc [of "x # xs" for x xs, simplified] split: if_splits)

lemma chain_initial_state:
  "chain (initial_state B now rnd es) =
     (let g = genesis now rnd;
          p1 = seedProducts ! 0; p2 = seedProducts ! 1;
          b1 = (makeBlock B (es 0) (hash g) (LISTING p1 (farmer p1)))\<lparr>index := 1\<rparr>;
          b2 = (makeBlock B (es 1) (hash b1) (LISTING p2 (farmer p2)))\<lparr>index := 2\<rparr>
      in [g, b1\<lparr>data := LISTING (p1\<lparr>hashTemp := Some (hash b1)\<rparr>) (farmer p1)\<rparr>,
             b2\<lparr>data := LISTING (p2\<lparr>hashTemp := Some (hash b2)\<rparr>) (farmer p2)\<rparr>])"
  by (simp add: initial_state_def seedBlocks_def seedBlock_def seedProducts_def Let_def upt_rec)

lemma products_initial_state:
  "products (initial_state B now rnd es) =
     (let g = genesis now rnd;
          p1 = seedProducts ! 0; p2 = seedProducts ! 1;
          b1 = (makeBlock B (es 0) (hash g) (LISTING p1 (farmer p1)))\<lparr>index := 1\<rparr>;
          b2 = (makeBlock B (es 1) (hash b1) (LISTING p2 (farmer p2)))\<lparr>index := 2\<rparr>
      in [p1\<lparr>hashTemp := Some (hash b1)\<rparr>, p2\<lparr>hashTemp := Some (hash b2)\<rparr>])"
  by (simp add: initial_state_def seedBlocks_def seedBlock_def seedProducts_def Let_def upt_rec)

lemma wellFormed_initial: "wellFormed (chain (initial_state B now rnd es))"
  by (simp add: chain_initial_state Let_def wellFormed_def genesis_def)

lemma ledger_wellFormed: "ledger B c \<Longrightarrow> wellFormed c"
  by (induction rule: ledger.induct) (auto intro: wellFormed_initial wellFormed_appendBlock)

subsection \<open>Reachable states are consistent\<close>

lemma listedFirst_snoc:
  assumes "listedFirst c"
    and "isTRANSFER (data b) \<Longrightarrow>
           \<exists>a\<in>set c. isLISTING (data a) \<and> productIdOf (data a) = productIdOf (data b)"
  shows "listedFirst (c @ [b])"
  unfolding listedFirst_def
proof (intro allI impI)
  fix j assume j: "j < length (c @ [b])" and t: "isTRANSFER (data ((c @ [b]) ! j))"
  show "\<exists>i<j. isLISTING (data ((c @ [b]) ! i)) \<and>
          productIdOf (data ((c @ [b]) ! i)) = productIdOf (data ((c @ [b]) ! j))"
  proof (cases "j < length c")
    case True
    with t assms(1) obtain i where "i < j" "isLISTING (data (c ! i))"
      "productIdOf (data (c ! i)) = productIdOf (data (c ! j))"
      by (auto simp: listedFirst_def nth_append)
    with True show ?thesis by (auto simp: nth_append intro!: exI [of _ i])
  next
    case False
    with j have jl: "j = length c" by simp
    with t have "isTRANSFER (data b)" by simp
    from assms(2) [OF this] obtain a where "a \<in> set c" "isLISTING (data a)"
      "productIdOf (data a) = productIdOf (data b)" by blast
    then obtain i where "i < length c" "c ! i = a" by (auto simp: in_set_conv_nth)
    with jl \<open>isLISTING (data a)\<close> \<open>productIdOf (data a) = productIdOf (data b)\<close>
    show ?thesis by (auto simp: nth_append intro!: exI [of _ i])
  qed
qed

lemma consistent_initial: "consistent (initial_state B now rnd es)"
  by (simp add: consistent_def wellFormed_initial)
     (simp add: chain_initial_state products_initial_state Let_def listedFirst_def
        seedProducts_def nth_Cons' genesis_def)

lemma consistent_listProduct:
  assumes "consistent s" "listProduct B e req s = Inr s'" "req_id req \<noteq> []"
  shows "consistent s'"
proof -
  from assms(2) have "user s \<noteq> None \<and> chain s \<noteq> []"
    using listProduct_Inr_iff [of B e req s] by blast
  then obtain u where u: "user s = Some u" and ne: "chain s \<noteq> []" by auto
  note eq = assms(2) [unfolded listProduct_logged_in [OF u ne]]
  from assms(1) have wf: "wellFormed (chain s)" and lf: "listedFirst (chain s)"
    and ids: "\<forall>b\<in>set (chain s). productIdOf (data b) \<noteq> Some []"
    and ps: "\<forall>p\<in>set (products s). product_id p \<noteq> [] \<and>
        (\<exists>b\<in>set (chain s). isLISTING (data b) \<and> productIdOf (data b) = Some (product_id p))"
    by (simp_all add: consistent_def)
  have "appendBlock B e (LISTING \<lparr>product_id = req_id req, product_name = req_name req,
                            quantityKg = Number B (req_quantityKg req),
                            basePricePerKg = Number B (req_basePricePerKg req),
                            farmer = (req_farmer req)\<lparr>actor_id := user_id u\<rparr>,
                            status = LISTED, broker = None, hashTemp = None\<rparr>
                           ((req_farmer req)\<lparr>actor_id := user_id u\<rparr>)) (chain s) = Inr (chain s')"
    using eq ne by (auto simp: appendBlock_Inr)
  with wf have 1: "wellFormed (chain s')" by (rule wellFormed_appendBlock)
  have 2: "listedFirst (chain s')"
    using eq by (auto intro!: listedFirst_snoc lf)
  have 3: "\<forall>b\<in>set (chain s'). productIdOf (data b) \<noteq> Some []"
    using eq ids assms(3) by auto
  have 4: "\<forall>p\<in>set (products s'). product_id p \<noteq> [] \<and>
        (\<exists>b\<in>set (chain s'). isLISTING (data b) \<and> productIdOf (data b) = Some (product_id p))"
    using eq ps assms(3) by auto
  from 1 2 3 4 show ?thesis by (simp add: consistent_def)
qed

lemma consistent_orderProduct:
  assumes "consistent s" "orderProduct B e c pid br s = Inr s'"
  shows "consistent s'"
proof (cases "c \<and> find (\<lambda>p. product_id p = pid) (products s) \<noteq> None")
  case False
  then have "orderProduct B e c pid br s = Inr s"
    using orderProduct_declined [of B e pid br s] orderProduct_unknown [of pid s B e c br]
    by (cases c) auto
  with assms show ?thesis by simp
next
  case True
  then obtain prd where c: "c" and f: "find (\<lambda>p. product_id p = pid) (products s) = Some prd"
    by auto
  from assms(1) have wf: "wellFormed (chain s)" and lf: "listedFirst (chain s)"
    and ids: "\<forall>b\<in>set (chain s). productIdOf (data b) \<noteq> Some []"
    and ps: "\<forall>p\<in>set (products s). product_id p \<noteq> [] \<and>
        (\<exists>b\<in>set (chain s). isLISTING (data b) \<and> productIdOf (data b) = Some (product_id p))"
    by (simp_all add: consistent_def)
  from wf have ne: "chain s \<noteq> []" by (auto simp: wellFormed_def)
  from assms(2) c have eq: "orderProduct B e True pid br s = Inr s'" by simp
  note eq = eq [unfolded orderProduct_found [OF f ne]]
  from f have prd: "prd \<in> set (products s)" "product_id prd = pid"
    by (auto simp: find_Some_iff)
  with ps have pne: "product_id prd \<noteq> []"
    and lst: "\<exists>b\<in>set (chain s). isLISTING (data b) \<and> productIdOf (data b) = Some (product_id prd)"
    by auto
  have "appendBlock B e (TRANSFER \<lparr>ref_id = product_id prd, ref_name = product_name prd,
                             ref_quantityKg = quantityKg prd\<rparr>
                            (farmer prd) br (basePricePerKg prd)) (chain s) = Inr (chain s')"
    using eq ne by (auto simp: appendBlock_Inr)
  with wf have 1: "wellFormed (chain s')" by (rule wellFormed_appendBlock)
  let ?b = "(makeBlock B e (hash (last (chain s)))
               (TRANSFER \<lparr>ref_id = product_id prd, ref_name = product_name prd,
                          ref_quantityKg = quantityKg prd\<rparr>
                         (farmer prd) br (basePricePerKg prd)))
              \<lparr>index := Suc (index (last (chain s)))\<rparr>"
  from eq have cs: "chain s' = chain s @ [?b]" by auto
  have "listedFirst (chain s @ [?b])"
    by (rule listedFirst_snoc [OF lf]) (use lst in simp)
  with cs have 2: "listedFirst (chain s')" by simp
  have 3: "\<forall>b\<in>set (chain s'). productIdOf (data b) \<noteq> Some []"
    using eq ids pne by auto
  have 4: "\<forall>p\<in>set (products s'). product_id p \<noteq> [] \<and>
        (\<exists>b\<in>set (chain s'). isLISTING (data b) \<and> productIdOf (data b) = Some (product_id p))"
    using eq ps by auto
  from 1 2 3 4 show ?thesis by (simp add: consistent_def)
qed

lemma consistent_resetBlockchain:
  "consistent s \<Longrightarrow> consistent (resetBlockchain now rnd c s)"
  by (simp add: resetBlockchain_def consistent_def listedFirst_def genesis_def wellFormed_def)

lemma consistent_Admin_reset: "consistent s \<Longrightarrow> consistent (Admin_reset now rnd c s)"
  by (simp add: Admin_reset_def consistent_resetBlockchain split: option.splits)

lemma consistent_handleLogin: "consistent s \<Longrightarrow> consistent (handleLogin un pw r s)"
  by (simp add: handleLogin_def consistent_def split: option.splits)

lemma consistent_logout: "consistent s \<Longrightarrow> consistent (logout s)"
  by (simp add: logout_def consistent_def)

lemma step_consistent:
  assumes "step B s s'" "consistent s"
  shows "consistent s'"
  using assms
proof (induction rule: step.induct)
  case (upload s u form n e s')
  from \<open>Farmer_upload B e form s = Inr s'\<close> show ?case
  proof (cases rule: Farmer_upload_cases)
    case 1
    with upload.prems show ?thesis by simp
  next
    case (2 u')
    from upload.prems 2(4) show ?thesis
      by (rule consistent_listProduct) (simp add: \<open>form_id form = newFormId n\<close>)
  qed
next
  case (order e c i nm s s')
  from \<open>Broker_order B e c i nm s = Inr s'\<close> show ?case
  proof (cases rule: Broker_order_cases)
    case 1
    with order.prems show ?thesis by simp
  next
    case (2 u)
    from order.prems 2(4) show ?thesis by (rule consistent_orderProduct)
  qed
next
  case (toast_cleared s)
  then show ?case by (simp add: consistent_def)
qed (simp_all add: consistent_handleLogin consistent_logout consistent_Admin_reset)

lemma reachable_consistent: "reachable B s \<Longrightarrow> consistent s"
  by (induction rule: reachable.induct) (auto intro: consistent_initial step_consistent)

lemma step_ledger:
  assumes "step B s s'" "ledger B (chain s)"
  shows "ledger B (chain s')"
  using assms
proof (induction rule: step.induct)
  case (login s un pw r)
  then show ?case by (simp add: handleLogin_def split: option.splits)
next
  case (logged_out s)
  then show ?case by (simp add: logout_def)
next
  case (upload s u form n e s')
  from \<open>Farmer_upload B e form s = Inr s'\<close> show ?case
  proof (cases rule: Farmer_upload_cases)
    case 1
    with upload.prems show ?thesis by simp
  next
    case (2 u')
    from 2(4) have "user s \<noteq> None \<and> chain s \<noteq> []"
      using listProduct_Inr_iff by blast
    then obtain v where v: "user s = Some v" and ne: "chain s \<noteq> []" by auto
    note eq = 2(4) [unfolded listProduct_logged_in [OF v ne]]
    show ?thesis
      by (rule ledger.appended [OF upload.prems]) (use eq ne in \<open>auto simp: appendBlock_Inr\<close>)
  qed
next
  case (order e c i nm s s')
  from \<open>Broker_order B e c i nm s = Inr s'\<close> show ?case
  proof (cases rule: Broker_order_cases)
    case 1
    with order.prems show ?thesis by simp
  next
    case (2 u)
    from 2(4) show ?thesis
    proof (cases rule: orderProduct_cases)
      case 1
      with order.prems show ?thesis by simp
    next
      case (2 prd)
      note eq = 2(4) [unfolded orderProduct_found [OF 2(2) 2(3)]]
      show ?thesis
        by (rule ledger.appended [OF order.prems])
          (use eq 2(3) in \<open>auto simp: appendBlock_Inr\<close>)
    qed
  qed
next
  case (reset s now rnd c)
  then show ?case
    by (auto simp: Admin_reset_def resetBlockchain_def ledger.cleared split: option.splits)
next
  case (toast_cleared s)
  then show ?case by simp
qed

lemma reachable_ledger: "reachable B s \<Longrightarrow> ledger B (chain s)"
  by (induction rule: reachable.induct) (auto intro: ledger.seeded step_ledger)

subsection \<open>The example states\<close>

lemma user_demo_farmer:
  "user demo_farmer = Some (seedUsers ! 0)" "chain demo_farmer = chain demo_initial"
  "products demo_farmer = products demo_initial"
  by (simp_all add: demo_farmer_def handleLogin_def seedUsers_def)

lemma user_demo_broker:
  "user demo_broker = Some (seedUsers ! 3)" "chain demo_broker = chain demo_initial"
  "products demo_broker = products demo_initial"
  by (simp_all add: demo_broker_def handleLogin_def seedUsers_def)

lemma reachable_demo_initial: "reachable fragment_builtins demo_initial"
  unfolding demo_initial_def by (rule reachable.initial)

lemma reachable_demo_farmer: "reachable fragment_builtins demo_farmer"
  unfolding demo_farmer_def by (rule reachable.event [OF reachable_demo_initial step.login])

lemma reachable_demo_broker: "reachable fragment_builtins demo_broker"
  unfolding demo_broker_def by (rule reachable.event [OF reachable_demo_initial step.login])

lemma chain_demo_initial_ne: "chain demo_initial \<noteq> []" "length (chain demo_initial) = 3"
  by (simp_all add: demo_initial_def chain_initial_state Let_def)

lemma products_demo_initial:
  "map product_id (products demo_initial) = [lit ''AGR-1001'', lit ''AGR-1002'']"
  "map status (products demo_initial) = [LISTED, LISTED]"
  by (simp_all add: demo_initial_def products_initial_state Let_def seedProducts_def)

lemma validate_demo_form: "validateForm fragment_builtins demo_form"
  by (simp add: validateForm_def newErrors_def demo_form_def fragment_builtins_def
      Number_decimal_examples)

lemma find_demo_initial:
  "find (\<lambda>p. product_id p = lit ''AGR-1001'') (products demo_initial) = Some (products demo_initial ! 0)"
  by (simp add: demo_initial_def products_initial_state Let_def seedProducts_def)

lemma available_demo_broker: "available demo_broker = products demo_initial"
  by (simp add: available_def user_demo_broker demo_initial_def products_initial_state Let_def seedProducts_def)

lemma Broker_order_demo:
  "Broker_order fragment_builtins tick True 0 (lit ''GreenSupply Pvt Ltd'') demo_broker =
   orderProduct fragment_builtins tick True (lit ''AGR-1001'') demo_buyer demo_broker"
  by (simp add: Broker_order_def user_demo_broker available_demo_broker demo_buyer_def seedUsers_def)
     (simp add: demo_initial_def products_initial_state Let_def seedProducts_def)

lemma demo_sold_eq:
  "Broker_order fragment_builtins tick True 0 (lit ''GreenSupply Pvt Ltd'') demo_broker = Inr demo_sold"
proof -
  have f: "find (\<lambda>p. product_id p = lit ''AGR-1001'') (products demo_broker) = Some (products demo_initial ! 0)"
    by (simp add: user_demo_broker find_demo_initial)
  have ne: "chain demo_broker \<noteq> []" by (simp add: user_demo_broker chain_demo_initial_ne)
  show ?thesis
    unfolding demo_sold_def Broker_order_demo orderProduct_found [OF f ne] by simp
qed

lemma reachable_demo_sold: "reachable fragment_builtins demo_sold"
  by (rule reachable.event [OF reachable_demo_broker step.order [OF demo_sold_eq]])

lemma demo_sold_facts:
  "map product_id (products demo_sold) = [lit ''AGR-1001'', lit ''AGR-1002'']"
  "map status (products demo_sold) = [SOLD, LISTED]"
  "length (chain demo_sold) = 4"
  "chain demo_sold \<noteq> []"
proof -
  have f: "find (\<lambda>p. product_id p = lit ''AGR-1001'') (products demo_broker) = Some (products demo_initial ! 0)"
    by (simp add: user_demo_broker find_demo_initial)
  have ne: "chain demo_broker \<noteq> []" by (simp add: user_demo_broker chain_demo_initial_ne)
  note eq = demo_sold_eq [unfolded Broker_order_demo orderProduct_found [OF f ne], simplified, symmetric]
  show "map product_id (products demo_sold) = [lit ''AGR-1001'', lit ''AGR-1002'']"
    by (subst eq) (simp add: user_demo_broker products_demo_initial comp_def)
  show "map status (products demo_sold) = [SOLD, LISTED]"
    by (subst eq) (simp add: user_demo_broker demo_initial_def products_initial_state Let_def
        seedProducts_def soldTo_def)
  show "length (chain demo_sold) = 4"
    by (subst eq) (simp add: user_demo_broker chain_demo_initial_ne)
  then show "chain demo_sold \<noteq> []" by auto
qed


lemma chain_demo_sold:
  "\<exists>b. chain demo_sold = chain demo_initial @ [b] \<and> isTRANSFER (data b) \<and>
       productIdOf (data b) = Some (lit ''AGR-1001'')"
proof -
  have f: "find (\<lambda>p. product_id p = lit ''AGR-1001'') (products demo_broker) = Some (products demo_initial ! 0)"
    by (simp add: user_demo_broker find_demo_initial)
  have ne: "chain demo_broker \<noteq> []" by (simp add: user_demo_broker chain_demo_initial_ne)
  note eq = demo_sold_eq [unfolded Broker_order_demo orderProduct_found [OF f ne], simplified, symmetric]
  show ?thesis
    by (subst eq)
       (simp add: user_demo_broker demo_initial_def products_initial_state Let_def seedProducts_def)
qed

lemma demo_duplicate_eq:
  "Farmer_upload fragment_builtins tick demo_form demo_farmer = Inr demo_duplicate"
proof -
  have ne: "chain demo_farmer \<noteq> []" by (simp add: user_demo_farmer chain_demo_initial_ne)
  have "Farmer_upload fragment_builtins tick demo_form demo_farmer =
    listProduct fragment_builtins tick
      \<lparr>req_id = form_id demo_form, req_name = form_name demo_form,
       req_quantityKg = form_quantityKg demo_form,
       req_basePricePerKg = form_basePricePerKg demo_form,
       req_farmer = \<lparr>actor_id = user_id (seedUsers ! 0), actor_name = farmerName demo_form,
          village = Some (if form_village demo_form = [] then [0x2014]
                          else form_village demo_form)\<rparr>\<rparr> demo_farmer"
    by (simp add: Farmer_upload_def user_demo_farmer validate_demo_form)
       (simp add: seedUsers_def demo_form_def)
  then show ?thesis
    unfolding demo_duplicate_def listProduct_logged_in [OF user_demo_farmer(1) ne] by simp
qed

lemma step_demo_duplicate: "step fragment_builtins demo_farmer demo_duplicate"
proof (rule step.upload [OF user_demo_farmer(1) _ _ _ _ demo_duplicate_eq])
  show "form_id demo_form = newFormId 1001" by (simp add: demo_form_def)
  show "farmerName demo_form = user_name (seedUsers ! 0)"
    by (simp add: demo_form_def seedUsers_def)
qed simp_all

lemma Farmer_upload_demo:
  "Farmer_upload fragment_builtins tick demo_form demo_farmer =
    listProduct fragment_builtins tick
      \<lparr>req_id = lit ''AGR-1001'', req_name = lit ''Wheat'', req_quantityKg = lit ''40'',
       req_basePricePerKg = lit ''31'',
       req_farmer = \<lparr>actor_id = lit ''F-001'', actor_name = lit ''Ravi Kumar'',
          village = Some (lit ''Narsinghpur'')\<rparr>\<rparr> demo_farmer"
  by (simp add: Farmer_upload_def user_demo_farmer validate_demo_form)
     (simp add: seedUsers_def demo_form_def newFormId_1001)

lemma demo_duplicate_facts:
  "map product_id (products demo_duplicate) =
     [lit ''AGR-1001'', lit ''AGR-1001'', lit ''AGR-1002'']"
  "map product_name (products demo_duplicate) =
     [lit ''Wheat'', lit ''Organic Tomatoes'', lit ''Basmati Rice'']"
  "map status (products demo_duplicate) = [LISTED, LISTED, LISTED]"
  "length (chain demo_duplicate) = 4"
proof -
  have ne: "chain demo_farmer \<noteq> []" by (simp add: user_demo_farmer chain_demo_initial_ne)
  note eq = demo_duplicate_eq [unfolded Farmer_upload_demo
      listProduct_logged_in [OF user_demo_farmer(1) ne], simplified, symmetric]
  show "map product_id (products demo_duplicate) =
     [lit ''AGR-1001'', lit ''AGR-1001'', lit ''AGR-1002'']"
    by (subst eq) (simp add: user_demo_farmer products_demo_initial)
  show "map product_name (products demo_duplicate) =
     [lit ''Wheat'', lit ''Organic Tomatoes'', lit ''Basmati Rice'']"
    by (subst eq) (simp add: user_demo_farmer demo_initial_def products_initial_state Let_def
        seedProducts_def)
  show "map status (products demo_duplicate) = [LISTED, LISTED, LISTED]"
    by (subst eq) (simp add: user_demo_farmer products_demo_initial)
  show "length (chain demo_duplicate) = 4"
    by (subst eq) (simp add: user_demo_farmer chain_demo_initial_ne)
qed

lemma demo_duplicate_broker_facts:
  "user demo_duplicate_broker = Some (seedUsers ! 3)"
  "chain demo_duplicate_broker = chain demo_duplicate"
  "products demo_duplicate_broker = products demo_duplicate"
  by (simp_all add: demo_duplicate_broker_def handleLogin_def logout_def seedUsers_def)

lemma reachable_demo_duplicate: "reachable fragment_builtins demo_duplicate"
  by (rule reachable.event [OF reachable_demo_farmer step_demo_duplicate])

lemma reachable_demo_duplicate_broker: "reachable fragment_builtins demo_duplicate_broker"
  unfolding demo_duplicate_broker_def
  by (rule reachable.event [OF reachable.event [OF reachable_demo_duplicate step.logged_out]
        step.login])

lemma demo_both_sold_eq:
  "Broker_order fragment_builtins tock True 0 (lit ''GreenSupply Pvt Ltd'') demo_duplicate_broker
     = Inr demo_both_sold"
  and demo_both_sold_facts:
  "map product_id (products demo_both_sold) =
     [lit ''AGR-1001'', lit ''AGR-1001'', lit ''AGR-1002'']"
  "map status (products demo_both_sold) = [SOLD, SOLD, LISTED]"
  "length (chain demo_both_sold) = 5"
  "isTRANSFER (data (last (chain demo_both_sold)))"
  "length (filter (\<lambda>b. isTRANSFER (data b)) (chain demo_both_sold)) = 1"
proof -
  from demo_duplicate_facts(1,3) obtain p q r where pqr: "products demo_duplicate = [p, q, r]"
    "product_id p = lit ''AGR-1001''" "product_id q = lit ''AGR-1001''"
    "product_id r = lit ''AGR-1002''" "status p = LISTED" "status q = LISTED" "status r = LISTED"
    by (cases "products demo_duplicate") auto
  have av: "available demo_duplicate_broker = [p, q, r]"
    by (simp add: available_def demo_duplicate_broker_facts pqr)
  have f: "find (\<lambda>x. product_id x = lit ''AGR-1001'') (products demo_duplicate_broker) = Some p"
    by (simp add: demo_duplicate_broker_facts pqr)
  have ne: "chain demo_duplicate_broker \<noteq> []"
    using demo_duplicate_facts(4) by (auto simp: demo_duplicate_broker_facts)
  have bo: "Broker_order fragment_builtins tock True 0 (lit ''GreenSupply Pvt Ltd'')
      demo_duplicate_broker =
    orderProduct fragment_builtins tock True (lit ''AGR-1001'') demo_buyer demo_duplicate_broker"
    by (simp add: Broker_order_def demo_duplicate_broker_facts(1) av pqr demo_buyer_def
        seedUsers_def)
  note found = orderProduct_found [OF f ne, of fragment_builtins tock demo_buyer]
  show eq: "Broker_order fragment_builtins tock True 0 (lit ''GreenSupply Pvt Ltd'')
      demo_duplicate_broker = Inr demo_both_sold"
    unfolding demo_both_sold_def bo found by simp
  note r = eq [unfolded bo found, simplified, symmetric]
  show "map product_id (products demo_both_sold) =
     [lit ''AGR-1001'', lit ''AGR-1001'', lit ''AGR-1002'']"
    by (subst r) (simp add: demo_duplicate_broker_facts pqr)
  show "map status (products demo_both_sold) = [SOLD, SOLD, LISTED]"
    by (subst r) (simp add: demo_duplicate_broker_facts pqr soldTo_def)
  show "length (chain demo_both_sold) = 5"
    by (subst r) (simp add: demo_duplicate_broker_facts demo_duplicate_facts)
  show "isTRANSFER (data (last (chain demo_both_sold)))"
    by (subst r) simp
  have ne: "chain demo_farmer \<noteq> []" by (simp add: user_demo_farmer chain_demo_initial_ne)
  note d = demo_duplicate_eq [unfolded Farmer_upload_demo
      listProduct_logged_in [OF user_demo_farmer(1) ne], simplified, symmetric]
  have "filter (\<lambda>b. isTRANSFER (data b)) (chain demo_duplicate) = []"
    by (subst d)
       (simp add: user_demo_farmer demo_initial_def chain_initial_state Let_def genesis_def)
  then show "length (filter (\<lambda>b. isTRANSFER (data b)) (chain demo_both_sold)) = 1"
    by (subst r) (simp add: demo_duplicate_broker_facts)
qed

subsection \<open>The linkage of the chain\<close>

text \<open>
  Claim C1. In every chain the program can hold (the seeded chain, a chain after calls of
  \<^verbatim>\<open>appendBlock\<close>, the chain after a reset, and so the chain of every reachable state), block
  0 has the previous hash \<^verbatim>\<open>0xGENESIS\<close> and index 0, and every later block names the hash
  of the block before it and has the index of that block plus one.
\<close>

theorem chain_linkage:
  assumes "ledger B c \<or> (\<exists>s. reachable B s \<and> chain s = c)"
  shows "c \<noteq> [] \<and> prevHash (c ! 0) = lit ''0xGENESIS'' \<and> index (c ! 0) = 0 \<and>
    (\<forall>i. 0 < i \<and> i < length c \<longrightarrow>
       prevHash (c ! i) = hash (c ! (i - 1)) \<and> index (c ! i) = index (c ! (i - 1)) + 1)"
proof -
  from assms have "ledger B c" by (auto intro: reachable_ledger)
  then have wf: "wellFormed c" by (rule ledger_wellFormed)
  then have l: "linked c" and g: "c \<noteq> []" "prevHash (c ! 0) = lit ''0xGENESIS''" "index (c ! 0) = 0"
    by (cases c; simp add: wellFormed_def)+
  have "prevHash (c ! i) = hash (c ! (i - 1)) \<and> index (c ! i) = index (c ! (i - 1)) + 1"
    if "0 < i" "i < length c" for i
  proof -
    from that obtain k where "i = Suc k" by (cases i) auto
    with that linked_nth [OF l, of k] show ?thesis by simp
  qed
  with g show ?thesis by blast
qed

text \<open>Claim C1, an instance: the chain after the broker's order.\<close>

theorem chain_linkage_witness:
  "(ledger fragment_builtins (chain demo_sold) \<or>
      (\<exists>s. reachable fragment_builtins s \<and> chain s = chain demo_sold)) \<and>
   length (chain demo_sold) = 4 \<and>
   prevHash (chain demo_sold ! 0) = lit ''0xGENESIS'' \<and> index (chain demo_sold ! 0) = 0 \<and>
   prevHash (chain demo_sold ! 3) = hash (chain demo_sold ! 2) \<and>
   index (chain demo_sold ! 3) = index (chain demo_sold ! 2) + 1"
proof -
  have h: "ledger fragment_builtins (chain demo_sold) \<or>
      (\<exists>s. reachable fragment_builtins s \<and> chain s = chain demo_sold)"
    using reachable_demo_sold by blast
  from chain_linkage [OF h] h show ?thesis by (simp add: demo_sold_facts)
qed

subsection \<open>Verification\<close>

lemma verify_from_linked:
  assumes "case pre of None \<Rightarrow> linked bs | Some a \<Rightarrow> linked (a # bs)"
  shows "(verify_from f k pre bs = ChainValid \<longleftrightarrow> (\<forall>j<length bs. hash (bs ! j) = f (k + j) (bs ! j)))
    \<and> (\<forall>i. verify_from f k pre bs = Mismatch i \<longrightarrow>
          k \<le> i \<and> i < k + length bs \<and> hash (bs ! (i - k)) \<noteq> f i (bs ! (i - k)) \<and>
          (\<forall>j<i - k. hash (bs ! j) = f (k + j) (bs ! j)))"
  using assms
proof (induction bs arbitrary: k pre)
  case Nil
  then show ?case by simp
next
  case (Cons b bs)
  from Cons.prems have link: "case pre of None \<Rightarrow> True | Some a \<Rightarrow> prevHash b = hash a"
    by (cases pre) auto
  from Cons.prems have tl: "linked (b # bs)"
    by (cases pre; cases bs) auto
  show ?case
  proof (cases "hash b = f k b")
    case False
    with link show ?thesis by auto
  next
    case True
    with link have step: "verify_from f k pre (b # bs) = verify_from f (Suc k) (Some b) bs"
      by simp
    from tl have IH: "(verify_from f (Suc k) (Some b) bs = ChainValid \<longleftrightarrow>
        (\<forall>j<length bs. hash (bs ! j) = f (Suc k + j) (bs ! j)))
      \<and> (\<forall>i. verify_from f (Suc k) (Some b) bs = Mismatch i \<longrightarrow>
          Suc k \<le> i \<and> i < Suc k + length bs \<and> hash (bs ! (i - Suc k)) \<noteq> f i (bs ! (i - Suc k)) \<and>
          (\<forall>j<i - Suc k. hash (bs ! j) = f (Suc k + j) (bs ! j)))"
      by (intro Cons.IH) simp
    have valid: "(\<forall>j<length (b # bs). hash ((b # bs) ! j) = f (k + j) ((b # bs) ! j))
        \<longleftrightarrow> (\<forall>j<length bs. hash (bs ! j) = f (Suc k + j) (bs ! j))"
      using True by (auto simp: nth_Cons split: nat.splits)
    have mis: "k \<le> i \<and> i < k + length (b # bs) \<and>
          hash ((b # bs) ! (i - k)) \<noteq> f i ((b # bs) ! (i - k)) \<and>
          (\<forall>j<i - k. hash ((b # bs) ! j) = f (k + j) ((b # bs) ! j))"
      if m: "verify_from f (Suc k) (Some b) bs = Mismatch i" for i
    proof -
      from IH m have a: "Suc k \<le> i" "i < Suc k + length bs"
        "hash (bs ! (i - Suc k)) \<noteq> f i (bs ! (i - Suc k))"
        and b: "\<forall>j<i - Suc k. hash (bs ! j) = f (Suc k + j) (bs ! j)" by blast+
      from a(1) obtain d where d: "i - k = Suc d" "i - Suc k = d" by (cases "i - k") auto
      have "hash ((b # bs) ! j) = f (k + j) ((b # bs) ! j)" if "j < i - k" for j
        using that True b d by (cases j) auto
      with a d show ?thesis by auto
    qed
    from step IH valid mis show ?thesis by simp
  qed
qed

text \<open>
  Claim C2, amended. After any sequence of calls of \<^verbatim>\<open>appendBlock\<close> the scan never fails
  on the linkage: \<open>verify\<close> answers true exactly when every hash equals its recomputation,
  and otherwise reports the first index at which the recomputed hash differs.
\<close>

theorem verify_only_fails_on_hash:
  assumes "ledger B c"
  shows "(verify f c = ChainValid \<longleftrightarrow> (\<forall>i<length c. hash (c ! i) = f i (c ! i))) \<and>
    (\<forall>i. verify f c = Mismatch i \<longrightarrow>
       i < length c \<and> hash (c ! i) \<noteq> f i (c ! i) \<and> (\<forall>j<i. hash (c ! j) = f j (c ! j)))"
proof -
  from assms have "wellFormed c" by (rule ledger_wellFormed)
  then have "linked c" by (cases c) (auto simp: wellFormed_def)
  then have "case None of None \<Rightarrow> linked c | Some a \<Rightarrow> linked (a # c)" by simp
  from verify_from_linked [OF this, of f 0] show ?thesis by (simp add: verify_def)
qed

text \<open>Claim C2, an instance: the seeded chain and a recomputation with other draws.\<close>

theorem verify_only_fails_on_hash_witness:
  "ledger fragment_builtins (chain demo_initial) \<and>
   hash (chain demo_initial ! 0) \<noteq> demo_recompute 0 (chain demo_initial ! 0) \<and>
   verify demo_recompute (chain demo_initial) \<noteq> ChainValid"
proof -
  have h: "ledger fragment_builtins (chain demo_initial)"
    unfolding demo_initial_def by (rule ledger.seeded)
  have ne: "hash (chain demo_initial ! 0) \<noteq> demo_recompute 0 (chain demo_initial ! 0)"
  proof
    assume "hash (chain demo_initial ! 0) = demo_recompute 0 (chain demo_initial ! 0)"
    then have "drop 8 (hash (chain demo_initial ! 0)) =
      drop 8 (demo_recompute 0 (chain demo_initial ! 0))" by simp
    then show False
      by (simp add: demo_initial_def chain_initial_state Let_def genesis_def recomputeHash_def
          demo_recompute_def drop8_pseudoHash toUpperCase_examples)
  qed
  from verify_only_fails_on_hash [OF h, of demo_recompute] ne h
  show ?thesis by (auto simp: chain_demo_initial_ne)
qed

text \<open>
  Claim C2 as stated fails: hashes are recomputed the way \<^verbatim>\<open>makeBlock\<close> computes them, from
  the fields of each block and a new random draw, and \<open>verify\<close> rejects the chain after
  the broker's order, at index 0. The draw is made inside \<^verbatim>\<open>pseudoHash\<close>; a caller cannot
  repeat it.
\<close>

theorem verify_rejects_appended_chain:
  "ledger fragment_builtins (chain demo_sold) \<and> length (chain demo_sold) = 4 \<and>
   verify demo_recompute (chain demo_sold) = Mismatch 0"
proof -
  have h: "ledger fragment_builtins (chain demo_sold)"
    by (rule reachable_ledger [OF reachable_demo_sold])
  have ne: "hash (genesis (lit ''2025-01-01T09:00:00.000Z'') (lit ''0f0f0f0f'')) \<noteq>
      demo_recompute 0 (genesis (lit ''2025-01-01T09:00:00.000Z'') (lit ''0f0f0f0f''))"
  proof
    assume "hash (genesis (lit ''2025-01-01T09:00:00.000Z'') (lit ''0f0f0f0f'')) =
      demo_recompute 0 (genesis (lit ''2025-01-01T09:00:00.000Z'') (lit ''0f0f0f0f''))"
    then have "drop 8 (hash (genesis (lit ''2025-01-01T09:00:00.000Z'') (lit ''0f0f0f0f''))) =
      drop 8 (demo_recompute 0 (genesis (lit ''2025-01-01T09:00:00.000Z'') (lit ''0f0f0f0f'')))"
      by simp
    then show False
      by (simp add: genesis_def recomputeHash_def demo_recompute_def drop8_pseudoHash
          toUpperCase_examples)
  qed
  from chain_demo_sold obtain b where "chain demo_sold = chain demo_initial @ [b]" by blast
  then have "verify demo_recompute (chain demo_sold) = Mismatch 0"
    using ne by (simp add: verify_def demo_initial_def chain_initial_state Let_def)
  with h demo_sold_facts(3) show ?thesis by simp
qed

subsection \<open>The status of a product\<close>







subsection \<open>Listings with a non-positive quantity or price\<close>

text \<open>
  Claim C5, amended. The check is made by the form, not by \<^verbatim>\<open>listProduct\<close>: when the
  quantity or the price of the form reads as a number that is \<^verbatim>\<open><= 0\<close>, the upload button
  leaves the state as it is (no product, no block), \<^verbatim>\<open>validateForm\<close> is false and records
  the message for the field.
\<close>

theorem upload_rejects_nonpositive:
  assumes "le_zero (Number B (form_quantityKg form)) \<or> le_zero (Number B (form_basePricePerKg form))"
  shows "Farmer_upload B e form s = Inr s \<and> \<not> validateForm B form \<and>
    (le_zero (Number B (form_quantityKg form)) \<longrightarrow>
       quantityKg_error (newErrors B form) = Some (lit ''Valid quantity is required'')) \<and>
    (le_zero (Number B (form_basePricePerKg form)) \<longrightarrow>
       basePricePerKg_error (newErrors B form) = Some (lit ''Valid price is required''))"
proof -
  from assms have nv: "\<not> validateForm B form"
    by (auto simp: validateForm_def newErrors_def)
  then have "Farmer_upload B e form s = Inr s"
    by (simp add: Farmer_upload_def split: option.splits)
  with nv show ?thesis by (simp add: newErrors_def)
qed

text \<open>Claim C5, an instance: the form with quantity \<open>0\<close> and price \<open>-5\<close>.\<close>

theorem upload_rejects_nonpositive_witness:
  "(le_zero (Number fragment_builtins (form_quantityKg zero_form)) \<or>
    le_zero (Number fragment_builtins (form_basePricePerKg zero_form))) \<and>
   Farmer_upload fragment_builtins tick zero_form demo_farmer = Inr demo_farmer \<and>
   \<not> validateForm fragment_builtins zero_form \<and>
   quantityKg_error (newErrors fragment_builtins zero_form) = Some (lit ''Valid quantity is required'') \<and>
   basePricePerKg_error (newErrors fragment_builtins zero_form) = Some (lit ''Valid price is required'')"
proof -
  have h: "le_zero (Number fragment_builtins (form_quantityKg zero_form))"
    "le_zero (Number fragment_builtins (form_basePricePerKg zero_form))"
    by (simp_all add: zero_form_def demo_form_def fragment_builtins_def Number_decimal_examples)
  from h(1) have "le_zero (Number fragment_builtins (form_quantityKg zero_form)) \<or>
    le_zero (Number fragment_builtins (form_basePricePerKg zero_form))" ..
  from upload_rejects_nonpositive [OF this, of tick demo_farmer] h show ?thesis by simp
qed

text \<open>
  Claim C5 as stated fails: \<^verbatim>\<open>listProduct\<close> itself, called with quantity \<open>0\<close> and price
  \<open>-5\<close>, stores the product and appends a block.
\<close>

theorem listProduct_accepts_nonpositive:
  "listProduct fragment_builtins tick zero_request demo_farmer = Inr demo_zero \<and>
   length (products demo_farmer) = 2 \<and> length (chain demo_farmer) = 3 \<and>
   map quantityKg (products demo_zero) = [Finite 0, Finite 120, Finite 500] \<and>
   map basePricePerKg (products demo_zero) = [Finite (- 5), Finite 28, Finite 62] \<and>
   length (chain demo_zero) = 4"
proof -
  have ne: "chain demo_farmer \<noteq> []" by (simp add: user_demo_farmer chain_demo_initial_ne)
  note logged = listProduct_logged_in [OF user_demo_farmer(1) ne,
      of fragment_builtins tick zero_request]
  have eq: "listProduct fragment_builtins tick zero_request demo_farmer = Inr demo_zero"
    unfolding demo_zero_def logged by simp
  note r = eq [unfolded logged, simplified, symmetric]
  have "map quantityKg (products demo_zero) = [Finite 0, Finite 120, Finite 500]"
    by (subst r)
       (simp add: user_demo_farmer demo_initial_def products_initial_state Let_def
          seedProducts_def zero_request_def fragment_builtins_def Number_decimal_examples)
  moreover have "map basePricePerKg (products demo_zero) = [Finite (- 5), Finite 28, Finite 62]"
    by (subst r)
       (simp add: user_demo_farmer demo_initial_def products_initial_state Let_def
          seedProducts_def zero_request_def fragment_builtins_def Number_decimal_examples)
  moreover have "length (chain demo_zero) = 4"
    by (subst r) (simp add: user_demo_farmer chain_demo_initial_ne)
  moreover have "length (products demo_farmer) = 2"
    using arg_cong [OF products_demo_initial(1), of length] by (simp add: user_demo_farmer)
  ultimately show ?thesis using eq by (simp add: user_demo_farmer chain_demo_initial_ne)
qed

subsection \<open>An order of an unknown product\<close>

text \<open>
  Claim C6, amended. \<^verbatim>\<open>orderProduct\<close> with an id that no product has returns without an
  error and leaves the whole state as it was: products, chain, user and toast; no message
  is shown.
\<close>

theorem order_of_unknown_id_is_silent:
  assumes "find (\<lambda>p. product_id p = pid) (products s) = None"
  shows "orderProduct B e c pid br s = Inr s"
  using assms by (rule orderProduct_unknown)

text \<open>Claim C6, an instance: the broker orders \<open>AGR-9999\<close>.\<close>

theorem order_of_unknown_id_is_silent_witness:
  "find (\<lambda>p. product_id p = lit ''AGR-9999'') (products demo_broker) = None \<and>
   orderProduct fragment_builtins tick True (lit ''AGR-9999'') demo_buyer demo_broker
     = Inr demo_broker"
proof -
  have h: "find (\<lambda>p. product_id p = lit ''AGR-9999'') (products demo_broker) = None"
    by (simp add: user_demo_broker demo_initial_def products_initial_state Let_def seedProducts_def)
  from order_of_unknown_id_is_silent [OF h] h show ?thesis by simp
qed

text \<open>
  Claim C6 as stated fails: the call returns the state it was given, an ordinary return,
  and no toast is set.
\<close>

theorem unknown_order_raises_nothing:
  "orderProduct fragment_builtins tick True (lit ''AGR-9999'') demo_buyer demo_initial
     = Inr demo_initial \<and>
   toast demo_initial = None"
proof -
  have "find (\<lambda>p. product_id p = lit ''AGR-9999'') (products demo_initial) = None"
    by (simp add: demo_initial_def products_initial_state Let_def seedProducts_def)
  then have "orderProduct fragment_builtins tick True (lit ''AGR-9999'') demo_buyer demo_initial
    = Inr demo_initial" by (rule orderProduct_unknown)
  then show ?thesis by (simp add: demo_initial_def initial_state_def Let_def)
qed

subsection \<open>Tracing a product\<close>

lemma find_filter: "find P (filter Q xs) = find (\<lambda>x. Q x \<and> P x) xs"
  by (induction xs) auto

lemma isLISTING_not_TRANSFER: "isLISTING d \<Longrightarrow> \<not> isTRANSFER d"
  by (cases d) auto

lemma Consumer_record_Some:
  "Consumer_record c q = Some r \<longleftrightarrow>
     q \<noteq> [] \<and> filter (\<lambda>b. productIdOf (data b) = Some q) c \<noteq> [] \<and>
     r = \<lparr>listing = find (\<lambda>b. productIdOf (data b) = Some q \<and> isLISTING (data b)) c,
          transfer = find (\<lambda>b. productIdOf (data b) = Some q \<and> isTRANSFER (data b)) c\<rparr>"
  by (auto simp: Consumer_record_def Let_def find_filter)

text \<open>
  Claim C7. In a reachable state, a product id whose blocks in the chain are one listing is
  traced to that listing and no transfer; an id whose blocks are a listing followed by a
  transfer is traced to both; and whenever a trace has a listing and a transfer, the index
  of the transfer is greater than that of the listing.
\<close>

theorem trace_listing_then_transfer:
  assumes "reachable B s"
  shows "(\<forall>l. filter (\<lambda>b. productIdOf (data b) = Some q) (chain s) = [l] \<and> isLISTING (data l)
            \<longrightarrow> Consumer_record (chain s) q = Some \<lparr>listing = Some l, transfer = None\<rparr>) \<and>
         (\<forall>l t. filter (\<lambda>b. productIdOf (data b) = Some q) (chain s) = [l, t] \<and>
                 isLISTING (data l) \<and> isTRANSFER (data t)
            \<longrightarrow> Consumer_record (chain s) q = Some \<lparr>listing = Some l, transfer = Some t\<rparr>) \<and>
         (\<forall>r l t. Consumer_record (chain s) q = Some r \<and> listing r = Some l \<and> transfer r = Some t
            \<longrightarrow> index l < index t)"
proof -
  let ?c = "chain s"
  let ?rel = "\<lambda>b. productIdOf (data b) = Some q"
  from assms have con: "consistent s" by (rule reachable_consistent)
  then have wf: "wellFormed ?c" and lf: "listedFirst ?c"
    and ids: "\<forall>b\<in>set ?c. productIdOf (data b) \<noteq> Some []"
    by (simp_all add: consistent_def)
  have q: "q \<noteq> []" if "filter ?rel ?c \<noteq> []"
  proof -
    from that obtain b where "b \<in> set (filter ?rel ?c)" by (cases "filter ?rel ?c") auto
    then have "b \<in> set ?c" "productIdOf (data b) = Some q" by auto
    with ids show ?thesis by auto
  qed
  have a: "Consumer_record ?c q = Some \<lparr>listing = Some l, transfer = None\<rparr>"
    if "filter ?rel ?c = [l]" "isLISTING (data l)" for l
    using that q by (simp add: Consumer_record_def isLISTING_not_TRANSFER)
  have b: "Consumer_record ?c q = Some \<lparr>listing = Some l, transfer = Some t\<rparr>"
    if "filter ?rel ?c = [l, t]" "isLISTING (data l)" "isTRANSFER (data t)" for l t
    using that q by (simp add: Consumer_record_def isLISTING_not_TRANSFER)
  have c: "index l < index t"
    if "Consumer_record ?c q = Some r" "listing r = Some l" "transfer r = Some t" for r l t
  proof -
    from that have fl: "find (\<lambda>b. ?rel b \<and> isLISTING (data b)) ?c = Some l"
      and ft: "find (\<lambda>b. ?rel b \<and> isTRANSFER (data b)) ?c = Some t"
      by (auto simp: Consumer_record_Some)
    from fl obtain i where i: "i < length ?c" "?c ! i = l"
      and imin: "\<forall>k<i. \<not> (?rel (?c ! k) \<and> isLISTING (data (?c ! k)))"
      by (auto simp: find_Some_iff)
    from ft obtain j where j: "j < length ?c" "?c ! j = t" "?rel t" "isTRANSFER (data t)"
      by (auto simp: find_Some_iff)
    from lf j obtain k where k: "k < j" "isLISTING (data (?c ! k))"
      "productIdOf (data (?c ! k)) = productIdOf (data (?c ! j))"
      by (auto simp: listedFirst_def)
    with j have "?rel (?c ! k) \<and> isLISTING (data (?c ! k))" by simp
    with imin have "\<not> k < i" by blast
    with k(1) have "i < j" by simp
    moreover from wf i have "index l = i" by (auto dest: wellFormed_index)
    moreover from wf j have "index t = j" by (auto dest: wellFormed_index)
    ultimately show ?thesis by simp
  qed
  from a b c show ?thesis by blast
qed

text \<open>Claim C7, an instance: \<open>AGR-1002\<close> and \<open>AGR-1001\<close> after the broker's order.\<close>

theorem trace_listing_then_transfer_witness:
  "reachable fragment_builtins demo_sold \<and>
   filter (\<lambda>b. productIdOf (data b) = Some (lit ''AGR-1002'')) (chain demo_sold)
     = [chain demo_sold ! 2] \<and>
   isLISTING (data (chain demo_sold ! 2)) \<and>
   Consumer_record (chain demo_sold) (lit ''AGR-1002'')
     = Some \<lparr>listing = Some (chain demo_sold ! 2), transfer = None\<rparr> \<and>
   filter (\<lambda>b. productIdOf (data b) = Some (lit ''AGR-1001'')) (chain demo_sold)
     = [chain demo_sold ! 1, chain demo_sold ! 3] \<and>
   isLISTING (data (chain demo_sold ! 1)) \<and> isTRANSFER (data (chain demo_sold ! 3)) \<and>
   Consumer_record (chain demo_sold) (lit ''AGR-1001'')
     = Some \<lparr>listing = Some (chain demo_sold ! 1), transfer = Some (chain demo_sold ! 3)\<rparr> \<and>
   index (chain demo_sold ! 1) < index (chain demo_sold ! 3)"
proof -
  from chain_demo_sold obtain b where b: "chain demo_sold = chain demo_initial @ [b]"
    "isTRANSFER (data b)" "productIdOf (data b) = Some (lit ''AGR-1001'')" by blast
  have f2: "filter (\<lambda>b. productIdOf (data b) = Some (lit ''AGR-1002'')) (chain demo_sold)
     = [chain demo_sold ! 2]"
    and l2: "isLISTING (data (chain demo_sold ! 2))"
    and f1: "filter (\<lambda>b. productIdOf (data b) = Some (lit ''AGR-1001'')) (chain demo_sold)
     = [chain demo_sold ! 1, chain demo_sold ! 3]"
    and l1: "isLISTING (data (chain demo_sold ! 1))"
    and t3: "isTRANSFER (data (chain demo_sold ! 3))"
    using b(2,3)
    by (simp_all add: b(1) demo_initial_def chain_initial_state Let_def seedProducts_def
        genesis_def)
  note inst = trace_listing_then_transfer [OF reachable_demo_sold]
  from inst [of "lit ''AGR-1002''"] f2 l2
  have r2: "Consumer_record (chain demo_sold) (lit ''AGR-1002'')
     = Some \<lparr>listing = Some (chain demo_sold ! 2), transfer = None\<rparr>" by blast
  from inst [of "lit ''AGR-1001''"] f1 l1 t3
  have r1: "Consumer_record (chain demo_sold) (lit ''AGR-1001'')
     = Some \<lparr>listing = Some (chain demo_sold ! 1), transfer = Some (chain demo_sold ! 3)\<rparr>"
    by blast
  from inst [of "lit ''AGR-1001''"] r1
  have "index (chain demo_sold ! 1) < index (chain demo_sold ! 3)"
    by (metis trace.select_convs(1,2))
  with reachable_demo_sold f2 l2 r2 f1 l1 t3 r1 show ?thesis by simp
qed

subsection \<open>Reset\<close>

text \<open>
  Claim C8. After a confirmed reset the chain is one new genesis block, with index 0 and the
  previous hash \<^verbatim>\<open>0xGENESIS\<close>, and there are no products, whatever the state was; for an
  admin the button of the \<^verbatim>\<open>Admin\<close> view does just that.
\<close>

theorem reset_gives_fresh_genesis:
  "chain (resetBlockchain now rnd True s) = [genesis now rnd] \<and>
   length (chain (resetBlockchain now rnd True s)) = 1 \<and>
   index (genesis now rnd) = 0 \<and> prevHash (genesis now rnd) = lit ''0xGENESIS'' \<and>
   data (genesis now rnd) = GENESIS (lit ''Agronova Chain Initialized'') \<and>
   products (resetBlockchain now rnd True s) = [] \<and>
   (\<forall>u. user s = Some u \<and> role u = admin_role \<longrightarrow>
      Admin_reset now rnd True s = resetBlockchain now rnd True s)"
  by (simp add: resetBlockchain_def genesis_def Admin_reset_def)

text \<open>Claim C8, an instance: the admin resets after the broker's order.\<close>

theorem reset_gives_fresh_genesis_witness:
  "user demo_admin = Some (seedUsers ! 4) \<and> role (seedUsers ! 4) = admin_role \<and>
   length (chain demo_admin) = 4 \<and> length (products demo_admin) = 2 \<and>
   Admin_reset (lit ''2025-01-02T00:00:00.000Z'') (lit ''5e5e5e5e'') True demo_admin =
     resetBlockchain (lit ''2025-01-02T00:00:00.000Z'') (lit ''5e5e5e5e'') True demo_admin \<and>
   length (chain (Admin_reset (lit ''2025-01-02T00:00:00.000Z'') (lit ''5e5e5e5e'') True demo_admin)) = 1 \<and>
   products (Admin_reset (lit ''2025-01-02T00:00:00.000Z'') (lit ''5e5e5e5e'') True demo_admin) = []"
proof -
  have u: "user demo_admin = Some (seedUsers ! 4)" "role (seedUsers ! 4) = admin_role"
    "chain demo_admin = chain demo_sold" "products demo_admin = products demo_sold"
    by (simp_all add: demo_admin_def handleLogin_def seedUsers_def)
  have "length (products demo_sold) = length (map product_id (products demo_sold))" by simp
  then have lp: "length (products demo_sold) = 2" by (simp only: demo_sold_facts) simp
  from reset_gives_fresh_genesis [of "lit ''2025-01-02T00:00:00.000Z''" "lit ''5e5e5e5e''" demo_admin] u lp
  show ?thesis by (simp add: demo_sold_facts)
qed

subsection \<open>Product ids\<close>

text \<open>
  Claim C9: in every reachable state no two products have the same id. The program
  identifies a product by its id everywhere (\<^verbatim>\<open>orderProduct\<close> maps and finds by
  \<^verbatim>\<open>p.id === productId\<close>, the \<^verbatim>\<open>Consumer\<close> view traces by id), but the form draws the id
  at random between \<open>AGR-1000\<close> and \<open>AGR-9999\<close> and \<^verbatim>\<open>listProduct\<close> stores it unchecked.
  The program run on the draw 1001: \<open>farmer1\<close> uploads the form, and the reachable state
  has two products of the id \<open>AGR-1001\<close>; then \<open>broker1\<close> orders the first row, and the
  one order marks both products \<open>SOLD\<close> and records one transfer.
\<close>

theorem duplicate_product_id:
  "reachable fragment_builtins demo_farmer \<and>
   map product_id (products demo_farmer) = [lit ''AGR-1001'', lit ''AGR-1002''] \<and>
   form_id demo_form = newFormId 1001 \<and>
   Farmer_upload fragment_builtins tick demo_form demo_farmer = Inr demo_duplicate \<and>
   reachable fragment_builtins demo_duplicate \<and>
   map product_id (products demo_duplicate) =
     [lit ''AGR-1001'', lit ''AGR-1001'', lit ''AGR-1002''] \<and>
   \<not> distinct (map product_id (products demo_duplicate)) \<and>
   map product_name (products demo_duplicate) =
     [lit ''Wheat'', lit ''Organic Tomatoes'', lit ''Basmati Rice''] \<and>
   map status (products demo_duplicate) = [LISTED, LISTED, LISTED] \<and>
   length (chain demo_duplicate) = 4 \<and>
   reachable fragment_builtins demo_duplicate_broker \<and>
   products demo_duplicate_broker = products demo_duplicate \<and>
   chain demo_duplicate_broker = chain demo_duplicate \<and>
   Broker_order fragment_builtins tock True 0 (lit ''GreenSupply Pvt Ltd'') demo_duplicate_broker
     = Inr demo_both_sold \<and>
   map product_id (products demo_both_sold) =
     [lit ''AGR-1001'', lit ''AGR-1001'', lit ''AGR-1002''] \<and>
   map status (products demo_both_sold) = [SOLD, SOLD, LISTED] \<and>
   length (chain demo_both_sold) = 5 \<and>
   length (filter (\<lambda>b. isTRANSFER (data b)) (chain demo_both_sold)) = 1"
proof -
  have "\<not> distinct (map product_id (products demo_duplicate))"
    by (simp add: demo_duplicate_facts(1))
  moreover have "map product_id (products demo_farmer) = [lit ''AGR-1001'', lit ''AGR-1002'']"
    by (simp add: user_demo_farmer products_demo_initial)
  moreover have "form_id demo_form = newFormId 1001"
    by (simp add: demo_form_def)
  ultimately show ?thesis
    using reachable_demo_farmer demo_duplicate_eq reachable_demo_duplicate demo_duplicate_facts
      reachable_demo_duplicate_broker demo_duplicate_broker_facts(2,3) demo_both_sold_eq
      demo_both_sold_facts(1,2,3,5)
    by simp
qed

subsection \<open>The farmer of a listing\<close>

text \<open>
  Claim C10. \<^verbatim>\<open>listProduct\<close> returns whenever a user is logged in and the chain is not
  empty, and whenever it returns, the product it stored and the listing it appended carry
  the id of the logged-in user as the id of the farmer, whatever the request says.
\<close>

theorem listProduct_overrides_farmer_id:
  "(user s = Some u \<and> chain s \<noteq> [] \<longrightarrow> (\<exists>s'. listProduct B e req s = Inr s')) \<and>
   (listProduct B e req s = Inr s' \<longrightarrow>
      (\<exists>u p a. user s = Some u \<and> products s' = p # products s \<and>
         actor_id (farmer p) = user_id u \<and>
         length (chain s') = Suc (length (chain s)) \<and>
         data (last (chain s')) = LISTING p a \<and> actor_id a = user_id u))"
proof -
  have a: "\<exists>s'. listProduct B e req s = Inr s'" if "user s = Some u" "chain s \<noteq> []"
    using that listProduct_Inr_iff [of B e req s] by simp
  have b: "\<exists>u p a. user s = Some u \<and> products s' = p # products s \<and>
         actor_id (farmer p) = user_id u \<and>
         length (chain s') = Suc (length (chain s)) \<and>
         data (last (chain s')) = LISTING p a \<and> actor_id a = user_id u"
    if r: "listProduct B e req s = Inr s'"
  proof -
    from r have "user s \<noteq> None \<and> chain s \<noteq> []"
      using listProduct_Inr_iff [of B e req s] by blast
    then obtain v where v: "user s = Some v" and ne: "chain s \<noteq> []" by auto
    note eq = r [unfolded listProduct_logged_in [OF v ne]]
    from eq v show ?thesis by auto
  qed
  from a b show ?thesis by blast
qed

text \<open>
  Claim C10, an instance: \<open>farmer1\<close> (\<open>F-001\<close>) submits a request in the name of \<open>F-002\<close>.
\<close>

theorem listProduct_overrides_farmer_id_witness:
  "user demo_farmer = Some (seedUsers ! 0) \<and> user_id (seedUsers ! 0) = lit ''F-001'' \<and>
   chain demo_farmer \<noteq> [] \<and>
   actor_id (req_farmer forged_request) = lit ''F-002'' \<and>
   listProduct fragment_builtins tick forged_request demo_farmer = Inr demo_forged \<and>
   (\<exists>p a. products demo_forged = p # products demo_farmer \<and>
      actor_id (farmer p) = lit ''F-001'' \<and>
      length (chain demo_forged) = Suc (length (chain demo_farmer)) \<and>
      data (last (chain demo_forged)) = LISTING p a \<and> actor_id a = lit ''F-001'')"
proof -
  have ne: "chain demo_farmer \<noteq> []" by (simp add: user_demo_farmer chain_demo_initial_ne)
  have uid: "user_id (seedUsers ! 0) = lit ''F-001''" by (simp add: seedUsers_def)
  note inst = listProduct_overrides_farmer_id [of demo_farmer "seedUsers ! 0" fragment_builtins
      tick forged_request demo_forged]
  from inst user_demo_farmer(1) ne
  obtain t where "listProduct fragment_builtins tick forged_request demo_farmer = Inr t" by blast
  then have eq: "listProduct fragment_builtins tick forged_request demo_farmer = Inr demo_forged"
    by (simp add: demo_forged_def)
  with inst user_demo_farmer(1) uid
  have "\<exists>p a. products demo_forged = p # products demo_farmer \<and>
      actor_id (farmer p) = lit ''F-001'' \<and>
      length (chain demo_forged) = Suc (length (chain demo_farmer)) \<and>
      data (last (chain demo_forged)) = LISTING p a \<and> actor_id a = lit ''F-001''"
    by auto
  with user_demo_farmer(1) uid ne eq show ?thesis by (simp add: forged_request_def)
qed

end
